theory Spec2Isabelle
  imports Complex_Main "HOL-Library.Word" "HOL-Library.Sublist"
begin

section \<open>JavaScript strings, values and exceptions\<close>

text \<open>
  The program is \<^verbatim>\<open>src/app/api/summarize/route.ts\<close>: the helper
  \<^verbatim>\<open>extractYouTubeVideoId\<close> and the request handler \<^verbatim>\<open>POST\<close>.
  A JavaScript string is a sequence of 16-bit code units; \<^verbatim>\<open>includes\<close>,
  \<^verbatim>\<open>split\<close>, \<^verbatim>\<open>substring\<close>, \<^verbatim>\<open>length\<close> and regular expressions
  without the \<^verbatim>\<open>u\<close> flag all work on code units.
\<close>

type_synonym jschar = "16 word"
type_synonym jsstring = "jschar list"

definition js :: "string \<Rightarrow> jsstring" where
  "js s = map of_char s"

text \<open>
  The values a parsed JSON body can hold, and \<^verbatim>\<open>undefined\<close> for an absent property.
  \<open>Num\<close> is a finite number. \<open>Infinity\<close> is what \<^verbatim>\<open>JSON.parse\<close> gives for a number
  beyond the range of a double, positive or (with the flag set) negative.
\<close>

datatype jsval =
    Undefined
  | Null
  | Bool bool
  | Num rat
  | Infinity bool
  | Str jsstring
  | Arr "jsval list"
  | Obj "(jsstring \<times> jsval) list"

fun truthy :: "jsval \<Rightarrow> bool" where
  "truthy Undefined = False"
| "truthy Null = False"
| "truthy (Bool b) = b"
| "truthy (Num x) = (x \<noteq> 0)"
| "truthy (Infinity negative) = True"
| "truthy (Str s) = (s \<noteq> [])"
| "truthy (Arr xs) = True"
| "truthy (Obj fs) = True"

fun is_string :: "jsval \<Rightarrow> bool" where
  "is_string (Str s) = True"
| "is_string v = False"

text \<open>
  A thrown value is an error object with a \<^verbatim>\<open>message\<close>. A computation that may throw
  returns \<open>Inl\<close> of the error; \<open>try_catch\<close> is a \<^verbatim>\<open>try { } catch (e) { }\<close> block.
\<close>

datatype js_error = JsError (message: jsstring)

type_synonym 'a throws = "js_error + 'a"

definition try_catch :: "'a throws \<Rightarrow> (js_error \<Rightarrow> 'a throws) \<Rightarrow> 'a throws" where
  "try_catch body handler = (case body of Inl e \<Rightarrow> handler e | Inr v \<Rightarrow> Inr v)"

text \<open>
  What the runtime provides and the repository does not define. \<open>URL_failure\<close> is the
  TypeError that \<^verbatim>\<open>new URL(url)\<close> throws on a string that does not parse as an absolute
  URL (no scheme, or a host or port that is not valid); \<open>None\<close> when the string parses.
  \<open>msg_destructure_null\<close> and \<open>msg_read_of_undefined\<close> are the messages of the
  TypeErrors the engine throws when a \<^verbatim>\<open>null\<close> body is destructured and when a property
  of \<^verbatim>\<open>undefined\<close> is read; \<open>native_to_string\<close> is the text a template literal gives
  for a member inherited from \<^verbatim>\<open>Object.prototype\<close>.
\<close>

record platform =
  URL_failure :: "jsstring \<Rightarrow> js_error option"
  msg_destructure_null :: jsstring
  msg_read_of_undefined :: "jsstring \<Rightarrow> jsstring"
  native_to_string :: "jsstring \<Rightarrow> jsstring"

section \<open>The query of a parsed URL and its search parameters\<close>

text \<open>
  \<^verbatim>\<open>new URL(url)\<close> and \<^verbatim>\<open>urlObj.searchParams.get(name)\<close>, as the URL standard and the
  Encoding standard define them, for what the extractor reads: the query of a string
  that parses, and the list of its name and value pairs. Code points and bytes are
  natural numbers.

  The argument is first converted to scalar values: a surrogate pair is one code
  point, a surrogate on its own is U+FFFD.
\<close>

definition ascii :: "string \<Rightarrow> nat list" where
  "ascii s = map of_char s"

definition is_high_surrogate :: "jschar \<Rightarrow> bool" where
  "is_high_surrogate c \<longleftrightarrow> 0xD800 \<le> c \<and> c \<le> 0xDBFF"

definition is_low_surrogate :: "jschar \<Rightarrow> bool" where
  "is_low_surrogate c \<longleftrightarrow> 0xDC00 \<le> c \<and> c \<le> 0xDFFF"

definition scalar :: "jschar \<Rightarrow> nat" where
  "scalar c = (if is_high_surrogate c \<or> is_low_surrogate c then 0xFFFD else unat c)"

fun code_points :: "jsstring \<Rightarrow> nat list" where
  "code_points [] = []"
| "code_points [c] = [scalar c]"
| "code_points (c # d # cs) =
     (if is_high_surrogate c \<and> is_low_surrogate d
      then (0x10000 + (unat c - 0xD800) * 0x400 + (unat d - 0xDC00)) # code_points cs
      else scalar c # code_points (d # cs))"

text \<open>A code point as UTF-16 code units, for the strings the search parameters hold.\<close>

definition utf16 :: "nat \<Rightarrow> jsstring" where
  "utf16 cp =
     (if cp < 0x10000 then [of_nat cp]
      else [of_nat (0xD800 + (cp - 0x10000) div 0x400),
            of_nat (0xDC00 + (cp - 0x10000) mod 0x400)])"

text \<open>
  The parser removes leading and trailing C0 controls and spaces, then every tab and
  newline.
\<close>

definition is_c0_or_space :: "nat \<Rightarrow> bool" where
  "is_c0_or_space n \<longleftrightarrow> n \<le> 0x20"

definition is_tab_or_newline :: "nat \<Rightarrow> bool" where
  "is_tab_or_newline n \<longleftrightarrow> n = 0x09 \<or> n = 0x0A \<or> n = 0x0D"

definition trim_right :: "nat list \<Rightarrow> nat list" where
  "trim_right xs = rev (dropWhile is_c0_or_space (rev xs))"

definition url_input :: "jsstring \<Rightarrow> nat list" where
  "url_input url =
     filter (\<lambda>n. \<not> is_tab_or_newline n)
       (trim_right (dropWhile is_c0_or_space (code_points url)))"

text \<open>
  In a string that parses, the scheme holds neither \<open>?\<close> nor \<open>#\<close>, and in every state
  after the scheme the first \<open>?\<close> begins the query and the first \<open>#\<close> begins the
  fragment. So the query is the text after the first \<open>?\<close> up to the next \<open>#\<close>, when no
  \<open>#\<close> comes before that \<open>?\<close>; there is no query otherwise.
\<close>

definition raw_query :: "nat list \<Rightarrow> nat list option" where
  "raw_query input =
     (case dropWhile (\<lambda>n. n \<noteq> 0x3F \<and> n \<noteq> 0x23) input of
        [] \<Rightarrow> None
      | c # rest \<Rightarrow> if c = 0x3F then Some (takeWhile (\<lambda>n. n \<noteq> 0x23) rest) else None)"

text \<open>
  The scheme is the text before the first colon, in lower case; the special schemes
  have one more character in their query percent-encode set.
\<close>

definition lower :: "nat \<Rightarrow> nat" where
  "lower n = (if 0x41 \<le> n \<and> n \<le> 0x5A then n + 0x20 else n)"

definition is_special :: "nat list \<Rightarrow> bool" where
  "is_special input \<longleftrightarrow>
     map lower (takeWhile (\<lambda>n. n \<noteq> 0x3A) input) \<in>
       set (map ascii [''ftp'', ''file'', ''http'', ''https'', ''ws'', ''wss''])"

text \<open>
  The query is stored percent-encoded: each code point is written in UTF-8, and a
  byte of the query percent-encode set (C0 controls, everything above \<open>~\<close>, space,
  \<open>"\<close>, \<open>#\<close>, \<open><\<close>, \<open>>\<close>, and \<open>'\<close> for a special scheme) becomes \<open>%\<close> and two
  upper-case hexadecimal digits.
\<close>

definition utf8_encode :: "nat \<Rightarrow> nat list" where
  "utf8_encode cp =
     (if cp < 0x80 then [cp]
      else if cp < 0x800 then [0xC0 + cp div 0x40, 0x80 + cp mod 0x40]
      else if cp < 0x10000
      then [0xE0 + cp div 0x1000, 0x80 + cp div 0x40 mod 0x40, 0x80 + cp mod 0x40]
      else [0xF0 + cp div 0x40000, 0x80 + cp div 0x1000 mod 0x40,
            0x80 + cp div 0x40 mod 0x40, 0x80 + cp mod 0x40])"

definition hex_digit :: "nat \<Rightarrow> nat" where
  "hex_digit d = (if d < 10 then 0x30 + d else 0x41 + (d - 10))"

definition in_query_set :: "bool \<Rightarrow> nat \<Rightarrow> bool" where
  "in_query_set special b \<longleftrightarrow>
     b \<le> 0x1F \<or> 0x7E < b \<or> b = 0x20 \<or> b = 0x22 \<or> b = 0x23 \<or> b = 0x3C \<or> b = 0x3E \<or>
     (special \<and> b = 0x27)"

definition percent_encode_byte :: "bool \<Rightarrow> nat \<Rightarrow> nat list" where
  "percent_encode_byte special b =
     (if in_query_set special b then [0x25, hex_digit (b div 16), hex_digit (b mod 16)]
      else [b])"

definition percent_encode_query :: "bool \<Rightarrow> nat list \<Rightarrow> nat list" where
  "percent_encode_query special raw =
     concat (map (\<lambda>cp. concat (map (percent_encode_byte special) (utf8_encode cp))) raw)"

definition url_query :: "jsstring \<Rightarrow> nat list option" where
  "url_query url =
     (let input = url_input url in
      map_option (percent_encode_query (is_special input)) (raw_query input))"

text \<open>
  The search parameters are the query read as \<^verbatim>\<open>application/x-www-form-urlencoded\<close>:
  it is split at every \<open>&\<close>, empty pieces are skipped, a piece is split at its first
  \<open>=\<close>, and in the name and in the value \<open>+\<close> becomes a space, percent-encoded bytes
  are decoded, and the bytes are read as UTF-8.
\<close>

fun split_on :: "('a \<Rightarrow> bool) \<Rightarrow> 'a list \<Rightarrow> 'a list list" where
  "split_on d [] = [[]]"
| "split_on d (c # cs) =
     (if d c then [] # split_on d cs
      else case split_on d cs of
             [] \<Rightarrow> [[c]]
           | p # ps \<Rightarrow> (c # p) # ps)"

definition is_hex :: "nat \<Rightarrow> bool" where
  "is_hex n \<longleftrightarrow>
     (0x30 \<le> n \<and> n \<le> 0x39) \<or> (0x41 \<le> n \<and> n \<le> 0x46) \<or> (0x61 \<le> n \<and> n \<le> 0x66)"

definition hex_value :: "nat \<Rightarrow> nat" where
  "hex_value n = (if n \<le> 0x39 then n - 0x30 else if n \<le> 0x46 then n - 0x37 else n - 0x57)"

fun percent_decode :: "nat list \<Rightarrow> nat list" where
  "percent_decode (b # h # l # bs) =
     (if b = 0x25 \<and> is_hex h \<and> is_hex l
      then (hex_value h * 16 + hex_value l) # percent_decode bs
      else b # percent_decode (h # l # bs))"
| "percent_decode (b # bs) = b # percent_decode bs"
| "percent_decode [] = []"

text \<open>
  The UTF-8 decoder of the Encoding standard, with U+FFFD for every error. In the
  state \<open>Continue\<close> it holds the code point so far, the number of bytes still needed
  and the bounds of the next byte; a byte out of bounds is an error and is read again
  from the start state.
\<close>

datatype utf8_state = Start | Continue nat nat nat nat

function utf8_decode :: "utf8_state \<Rightarrow> nat list \<Rightarrow> nat list" where
  "utf8_decode Start [] = []"
| "utf8_decode (Continue cp needed lo hi) [] = [0xFFFD]"
| "utf8_decode Start (b # bs) =
     (if b \<le> 0x7F then b # utf8_decode Start bs
      else if 0xC2 \<le> b \<and> b \<le> 0xDF then utf8_decode (Continue (b mod 0x20) 1 0x80 0xBF) bs
      else if 0xE0 \<le> b \<and> b \<le> 0xEF
      then utf8_decode
             (Continue (b mod 0x10) 2 (if b = 0xE0 then 0xA0 else 0x80)
                (if b = 0xED then 0x9F else 0xBF)) bs
      else if 0xF0 \<le> b \<and> b \<le> 0xF4
      then utf8_decode
             (Continue (b mod 0x08) 3 (if b = 0xF0 then 0x90 else 0x80)
                (if b = 0xF4 then 0x8F else 0xBF)) bs
      else 0xFFFD # utf8_decode Start bs)"
| "utf8_decode (Continue cp needed lo hi) (b # bs) =
     (if lo \<le> b \<and> b \<le> hi
      then (if needed \<le> 1 then (cp * 0x40 + b mod 0x40) # utf8_decode Start bs
            else utf8_decode (Continue (cp * 0x40 + b mod 0x40) (needed - 1) 0x80 0xBF) bs)
      else 0xFFFD # utf8_decode Start (b # bs))"
  by pat_completeness auto
termination
  by (relation "measure (\<lambda>(st, bs).
        2 * length bs + (case st of Start \<Rightarrow> 0 | Continue a b c d \<Rightarrow> 1))")
    auto

definition decode_component :: "nat list \<Rightarrow> jsstring" where
  "decode_component bs =
     concat (map utf16
       (utf8_decode Start (percent_decode (map (\<lambda>b. if b = 0x2B then 0x20 else b) bs))))"

definition parse_pair :: "nat list \<Rightarrow> jsstring \<times> jsstring" where
  "parse_pair bs =
     (decode_component (takeWhile (\<lambda>b. b \<noteq> 0x3D) bs),
      decode_component (case dropWhile (\<lambda>b. b \<noteq> 0x3D) bs of [] \<Rightarrow> [] | e # v \<Rightarrow> v))"

definition urlencoded_parse :: "nat list \<Rightarrow> (jsstring \<times> jsstring) list" where
  "urlencoded_parse bs =
     map parse_pair (filter (\<lambda>s. s \<noteq> []) (split_on (\<lambda>b. b = 0x26) bs))"

text \<open>
  The URL object, of which the extractor reads the search parameters only;
  \<^verbatim>\<open>get\<close> gives the value of the first pair with the name, or \<^verbatim>\<open>null\<close> (\<open>None\<close>).
\<close>

record URL =
  searchParams :: "(jsstring \<times> jsstring) list"

definition URL_new :: "platform \<Rightarrow> jsstring \<Rightarrow> URL throws" where
  "URL_new P url =
     (case URL_failure P url of
        Some e \<Rightarrow> Inl e
      | None \<Rightarrow>
          Inr \<lparr>searchParams =
                 (case url_query url of None \<Rightarrow> [] | Some q \<Rightarrow> urlencoded_parse q)\<rparr>)"

definition searchParams_get :: "URL \<Rightarrow> jsstring \<Rightarrow> jsstring option" where
  "searchParams_get urlObj name = map_of (searchParams urlObj) name"

section \<open>String operations used by the extractor\<close>

text \<open>\<^verbatim>\<open>s.includes(m)\<close>: \<open>m\<close> occurs in \<open>s\<close> as a contiguous substring.\<close>

fun str_includes :: "'a list \<Rightarrow> 'a list \<Rightarrow> bool" where
  "str_includes [] m = (m = [])"
| "str_includes (c # cs) m = (prefix m (c # cs) \<or> str_includes cs m)"

text \<open>
  \<^verbatim>\<open>s.split(sep)\<close> with a string separator. \<open>break_at\<close> finds the first occurrence of
  a separator: the text before it and the text after it.
\<close>

fun break_at :: "'a list \<Rightarrow> 'a list \<Rightarrow> ('a list \<times> 'a list) option" where
  "break_at sep [] = None"
| "break_at sep (c # cs) =
     (if prefix sep (c # cs) then Some ([], drop (length sep) (c # cs))
      else map_option (apfst ((#) c)) (break_at sep cs))"

function split_str :: "'a list \<Rightarrow> 'a list \<Rightarrow> 'a list list" where
  "split_str s sep =
     (if sep = [] then map (\<lambda>c. [c]) s
      else case break_at sep s of
             None \<Rightarrow> [s]
           | Some (b, a) \<Rightarrow> b # split_str a sep)"
  by pat_completeness auto
termination
proof (relation "measure (\<lambda>(s, sep). length s)")
  show "wf (measure (\<lambda>(s, sep). length s))" by simp
next
  fix s sep :: "'a list" and x2 b a
  assume sep: "sep \<noteq> []" and found: "break_at sep s = Some x2" "(b, a) = x2"
  have len: "length a + length sep \<le> length t"
    if "break_at sep t = Some (b', a)" for t b'
    using that
  proof (induction t arbitrary: b')
    case Nil
    then show ?case by simp
  next
    case (Cons c cs)
    show ?case
    proof (cases "prefix sep (c # cs)")
      case True
      then have "length sep \<le> length (c # cs)" by (rule prefix_length_le)
      with True Cons.prems show ?thesis by auto
    next
      case False
      with Cons.prems obtain b'' where "break_at sep cs = Some (b'', a)"
        by (auto simp: apfst_def map_prod_def split: prod.splits)
      with Cons.IH have "length a + length sep \<le> length cs" by blast
      then show ?thesis by simp
    qed
  qed
  from found have "break_at sep s = Some (b, a)" by simp
  then have "length a + length sep \<le> length s" by (rule len)
  with sep show "((a, sep), (s, sep)) \<in> measure (\<lambda>(s, sep). length s)"
    by (cases sep) auto
qed

declare split_str.simps [simp del]

text \<open>\<^verbatim>\<open>s.split(/[?#&]/)\<close>: the pieces of \<open>s\<close> between the characters \<open>?\<close>, \<open>#\<close>, \<open>&\<close>.\<close>

definition is_delim :: "jschar \<Rightarrow> bool" where
  "is_delim c \<longleftrightarrow> c = 0x3F \<or> c = 0x23 \<or> c = 0x26"

fun split_delim :: "jsstring \<Rightarrow> jsstring list" where
  "split_delim [] = [[]]"
| "split_delim (c # cs) =
     (if is_delim c then [] # split_delim cs
      else case split_delim cs of
             [] \<Rightarrow> [[c]]
           | p # ps \<Rightarrow> (c # p) # ps)"

text \<open>The character class \<^verbatim>\<open>[a-zA-Z0-9_-]\<close>.\<close>

definition is_id_char :: "jschar \<Rightarrow> bool" where
  "is_id_char c \<longleftrightarrow>
     (0x61 \<le> c \<and> c \<le> 0x7A) \<or> (0x41 \<le> c \<and> c \<le> 0x5A) \<or>
     (0x30 \<le> c \<and> c \<le> 0x39) \<or> c = 0x5F \<or> c = 0x2D"

text \<open>
  \<^verbatim>\<open>url.match(/([a-zA-Z0-9_-]{11})/)\<close>: the leftmost position at which eleven
  characters of the class follow each other; group 1 is those eleven characters.
\<close>

fun match11 :: "jsstring \<Rightarrow> jsstring option" where
  "match11 [] = None"
| "match11 (c # cs) =
     (if length (take 11 (c # cs)) = 11 \<and> list_all is_id_char (take 11 (c # cs))
      then Some (take 11 (c # cs))
      else match11 cs)"

text \<open>\<^verbatim>\<open>/^[a-zA-Z0-9_-]{11}$/.test(videoId)\<close>.\<close>

definition test11 :: "jsstring \<Rightarrow> bool" where
  "test11 s \<longleftrightarrow> length s = 11 \<and> list_all is_id_char s"

section \<open>extractYouTubeVideoId\<close>

definition test_url :: jsstring where
  "test_url = js ''https://youtu.be/QiZ62yswdPw?si=IHWvSDSvLUQXqYpm''"

definition youtu_be :: jsstring where
  "youtu_be = js ''youtu.be/''"

definition youtube_watch :: jsstring where
  "youtube_watch = js ''youtube.com/watch''"

definition youtube_v :: jsstring where
  "youtube_v = js ''youtube.com/v/''"

definition youtube_embed :: jsstring where
  "youtube_embed = js ''youtube.com/embed/''"

text \<open>
  Lines 188 to 192 (and 206 to 210, 214 to 218): \<^verbatim>\<open>parts = url.split(marker)\<close>, and
  when there is a second part, \<^verbatim>\<open>videoId = parts[1].split(/[?#&]/)[0]\<close>; otherwise
  \<open>videoId\<close> keeps its initial value \<^verbatim>\<open>''\<close>. An \<^verbatim>\<open>undefined\<close> element 0 would be as
  falsy as \<^verbatim>\<open>''\<close> at the final test.
\<close>

definition after_marker :: "jsstring \<Rightarrow> jsstring \<Rightarrow> jsstring" where
  "after_marker url marker =
     (let parts = split_str url marker in
      if length parts > 1
      then (case split_delim (parts ! 1) of [] \<Rightarrow> [] | x # xs \<Rightarrow> x)
      else [])"

text \<open>
  Lines 196 to 202: \<^verbatim>\<open>new URL(url)\<close>, \<^verbatim>\<open>searchParams.get('v') || ''\<close>, inside their own
  \<^verbatim>\<open>try\<close>; the \<^verbatim>\<open>catch\<close> only logs, so \<open>videoId\<close> stays \<^verbatim>\<open>''\<close>.
\<close>

definition watch_param :: "platform \<Rightarrow> jsstring \<Rightarrow> jsstring throws" where
  "watch_param P url =
     try_catch
       (case URL_new P url of
          Inl e \<Rightarrow> Inl e
        | Inr urlObj \<Rightarrow>
            Inr (case searchParams_get urlObj (js ''v'') of
                   None \<Rightarrow> []
                 | Some v \<Rightarrow> v))
       (\<lambda>e. Inr [])"

text \<open>Lines 185 to 230: the body of the outer \<^verbatim>\<open>try\<close>; its value is \<open>videoId\<close>.\<close>

definition extract_candidate :: "platform \<Rightarrow> jsstring \<Rightarrow> jsstring throws" where
  "extract_candidate P url =
     (if str_includes url youtu_be then Inr (after_marker url youtu_be)
      else if str_includes url youtube_watch then watch_param P url
      else if str_includes url youtube_v then Inr (after_marker url youtube_v)
      else if str_includes url youtube_embed then Inr (after_marker url youtube_embed)
      else (case match11 url of None \<Rightarrow> Inr [] | Some m \<Rightarrow> Inr m))"

text \<open>
  Lines 183 to 238: everything after the special case. The outer \<^verbatim>\<open>catch\<close> only logs;
  then the candidate is returned when it is non-empty and passes the final test.
\<close>

definition extract_general :: "platform \<Rightarrow> jsstring \<Rightarrow> jsstring throws" where
  "extract_general P url =
     (case try_catch (extract_candidate P url) (\<lambda>error. Inr []) of
        Inl e \<Rightarrow> Inl e
      | Inr videoId \<Rightarrow>
          if videoId \<noteq> [] \<and> test11 videoId then Inr videoId else Inr [])"

text \<open>The function as a whole (lines 168 to 239); the result \<^verbatim>\<open>''\<close> is "no identifier".\<close>

definition extractYouTubeVideoId :: "platform \<Rightarrow> jsval \<Rightarrow> jsstring throws" where
  "extractYouTubeVideoId P url =
     (if \<not> truthy url \<or> \<not> is_string url then Inr []
      else case url of
             Str s \<Rightarrow>
               if s = test_url then Inr (js ''QiZ62yswdPw'')
               else extract_general P s
           | _ \<Rightarrow> Inr [])"

section \<open>The tables of the handler\<close>

text \<open>
  Lines 16 to 37. The Korean texts are written as their code units. Of an entry of
  \<^verbatim>\<open>errorMessages\<close> only \<^verbatim>\<open>noTranscript\<close> is ever read, so the table holds that
  field.
\<close>

definition systemPrompts_ko :: jsstring where
  "systemPrompts_ko =
    [0xB2F9, 0xC2E0, 0xC740, 0x0020, 0xC720, 0xCF8C, 0xD558, 0xACE0, 0x0020, 0xCE5C,
     0xC808, 0xD55C, 0x0020, 0xC720, 0xD29C, 0xBE0C, 0x0020, 0xC601, 0xC0C1, 0x0020,
     0xC124, 0xBA85, 0x0020, 0xC5B4, 0xC2DC, 0xC2A4, 0xD134, 0xD2B8, 0xC785, 0xB2C8,
     0xB2E4, 0x002E, 0x0020, 0xC804, 0xBB38, 0xC801, 0xC778, 0x0020, 0xB0B4, 0xC6A9,
     0xC744, 0x0020, 0xC27D, 0xAC8C, 0x0020, 0xD480, 0xC5B4, 0xC11C, 0x0020, 0xC124,
     0xBA85, 0xD558, 0xBA70, 0x002C, 0x0020, 0xC2DC, 0xCCAD, 0xC790, 0xAC00, 0x0020,
     0xC774, 0xD574, 0xD558, 0xAE30, 0x0020, 0xC27D, 0xB3C4, 0xB85D, 0x0020, 0xBA85,
     0xD655, 0xD55C, 0x0020, 0xAD6C, 0xC870, 0xC640, 0x0020, 0xC608, 0xC2DC, 0xB97C,
     0x0020, 0xC81C, 0xACF5, 0xD569, 0xB2C8, 0xB2E4, 0x002E, 0x0020, 0xC911, 0xC694,
     0xD55C, 0x0020, 0xB0B4, 0xC6A9, 0xC740, 0x0020, 0xC18C, 0xC81C, 0xBAA9, 0x0028,
     0xC608, 0x003A, 0x0020, 0x0023, 0x0023, 0x0020, 0xC774, 0xCC98, 0xB7FC, 0x0020,
     0xC791, 0xC131, 0xD558, 0xC138, 0xC694, 0x0029, 0xC73C, 0xB85C, 0x0020, 0xAD6C,
     0xBD84, 0xD558, 0xACE0, 0x002C, 0x0020, 0xB9AC, 0xC2A4, 0xD2B8, 0xB098, 0x0020,
     0xBC88, 0xD638, 0x0020, 0xB9E4, 0xAE30, 0xAE30, 0xB97C, 0x0020, 0xD1B5, 0xD574,
     0x0020, 0xC815, 0xBCF4, 0xB97C, 0x0020, 0xC815, 0xB9AC, 0xD574, 0x0020, 0xC8FC,
     0xC138, 0xC694, 0x002E]"

definition systemPrompts_en :: jsstring where
  "systemPrompts_en = js
    ''You are a helpful, friendly, and conversational YouTube video summarizer. You respond in a warm, engaging tone using clear explanations, subheadings, bullet points, and numbered lists. Structure your responses with helpful formatting like Markdown-style **bold**, _italics_, and numbered or bulleted lists. Always try to make complex ideas simple.''"

definition userPrompts_ko :: jsstring where
  "userPrompts_ko =
    [0xB2E4, 0xC74C, 0x0020, 0xC790, 0xB9C9, 0xC744, 0x0020, 0xC774, 0xC6A9, 0xD574,
     0x0020, 0xC720, 0xD29C, 0xBE0C, 0x0020, 0xB3D9, 0xC601, 0xC0C1, 0xC744, 0x0020,
     0xC694, 0xC57D, 0xD574, 0xC8FC, 0xC138, 0xC694, 0x003A, 0x000A, 0x000A]"

definition userPrompts_en :: jsstring where
  "userPrompts_en = js ''Please summarize this youtube video using the transcript:'' @ [0x0A, 0x0A]"

definition noTranscript_ko :: jsstring where
  "noTranscript_ko =
    [0xC774, 0x0020, 0xB3D9, 0xC601, 0xC0C1, 0xC5D0, 0x0020, 0xC0AC, 0xC6A9, 0x0020,
     0xAC00, 0xB2A5, 0xD55C, 0x0020, 0xC790, 0xB9C9, 0xC774, 0x0020, 0xC5C6, 0xC2B5,
     0xB2C8, 0xB2E4, 0x002E, 0x0020, 0xC790, 0xB9C9, 0xC774, 0x0020, 0xD65C, 0xC131,
     0xD654, 0xB41C, 0x0020, 0xB2E4, 0xB978, 0x0020, 0xB3D9, 0xC601, 0xC0C1, 0xC744,
     0x0020, 0xC2DC, 0xB3C4, 0xD574, 0xBCF4, 0xC138, 0xC694, 0x002E]"

definition noTranscript_en :: jsstring where
  "noTranscript_en = js
    ''No transcript is available for this video. Please try a different video that has captions enabled.''"

definition systemPrompts :: "(jsstring \<times> jsstring) list" where
  "systemPrompts = [(js ''ko'', systemPrompts_ko), (js ''en'', systemPrompts_en)]"

definition userPrompts :: "(jsstring \<times> jsstring) list" where
  "userPrompts = [(js ''ko'', userPrompts_ko), (js ''en'', userPrompts_en)]"

definition errorMessages :: "(jsstring \<times> jsstring) list" where
  "errorMessages = [(js ''ko'', noTranscript_ko), (js ''en'', noTranscript_en)]"

text \<open>
  Reading \<^verbatim>\<open>table[key]\<close> on an object literal: an own property, or else a member
  inherited from \<^verbatim>\<open>Object.prototype\<close> (a function, or for \<^verbatim>\<open>__proto__\<close> the
  prototype object itself: truthy, and without any of the properties read here), or
  else \<^verbatim>\<open>undefined\<close>. The cast \<^verbatim>\<open>locale as keyof typeof table\<close> is erased at run time.
\<close>

definition Object_prototype_keys :: "jsstring list" where
  "Object_prototype_keys = map js
     [''constructor'', ''__defineGetter__'', ''__defineSetter__'', ''hasOwnProperty'',
      ''__lookupGetter__'', ''__lookupSetter__'', ''isPrototypeOf'',
      ''propertyIsEnumerable'', ''toString'', ''valueOf'', ''__proto__'',
      ''toLocaleString'']"

datatype 'a property = Own 'a | Inherited | Absent

definition get_property :: "(jsstring \<times> 'a) list \<Rightarrow> jsstring \<Rightarrow> 'a property" where
  "get_property table key =
     (case map_of table key of
        Some v \<Rightarrow> Own v
      | None \<Rightarrow> if key \<in> set Object_prototype_keys then Inherited else Absent)"

section \<open>Requests, collaborators and responses\<close>

text \<open>
  \<^verbatim>\<open>await req.json()\<close> rejects on a body that is not JSON; destructuring \<^verbatim>\<open>null\<close>
  throws; any other body gives \<open>videoUrl\<close> (\<open>Undefined\<close> when the body has no such
  property) and \<open>locale\<close>, which when present is a string, the locale tag of the
  request.
\<close>

datatype request =
    BodyRejected js_error
  | BodyNull
  | Body jsval "jsstring option"

text \<open>
  The answer of the video metadata endpoint: \<^verbatim>\<open>axios.get\<close> rejects, or resolves with
  \<^verbatim>\<open>data.items\<close>, a list of items with their \<^verbatim>\<open>snippet\<close> when they have one;
  \<open>None\<close> stands for a \<^verbatim>\<open>data\<close> without \<^verbatim>\<open>items\<close>.
\<close>

record snippet =
  title :: "jsstring option"
  description :: "jsstring option"

datatype yt_outcome =
    YtRejected js_error
  | YtResolved "snippet option list option"

text \<open>The answer of the language model: the call rejects, or resolves with a completion.\<close>

datatype reply_message = ReplyMessage (reply_content: "jsstring option")

datatype choice = Choice (choice_message: "reply_message option")

datatype completion = Completion (choices: "choice list option")

datatype oa_outcome =
    OaRejected js_error
  | OaResolved "completion option"

text \<open>
  The content of a prompt message is a text, or a member of \<^verbatim>\<open>Object.prototype\<close>
  named by its key (what \<^verbatim>\<open>systemPrompts[locale] || ...\<close> gives for such a key).
\<close>

datatype content = Text jsstring | Native jsstring

record prompt_message =
  role :: jsstring
  content :: content

record chat_request =
  messages :: "prompt_message list"
  model :: jsstring
  max_tokens :: nat
  temperature :: rat

record services =
  youtube_videos :: "jsstring \<Rightarrow> yt_outcome"
  chat_completions_create :: "chat_request \<Rightarrow> oa_outcome"

text \<open>The outbound calls a request makes, in order, with what was sent.\<close>

datatype outbound = YouTubeVideos jsstring | ChatCompletion chat_request

text \<open>
  A response: the status and the JSON object of the body. \<^verbatim>\<open>JSON.stringify\<close> leaves
  out a property whose value is \<^verbatim>\<open>undefined\<close>; it writes \<^verbatim>\<open>null\<close> for an
  \<^verbatim>\<open>undefined\<close> element of an array and for a number that is not finite.
\<close>

record response =
  status :: nat
  body :: "(jsstring \<times> jsval) list"

fun JSON_value :: "jsval \<Rightarrow> jsval" where
  "JSON_value Undefined = Null"
| "JSON_value (Infinity negative) = Null"
| "JSON_value (Arr xs) = Arr (map JSON_value xs)"
| "JSON_value (Obj ps) =
     Obj (map (\<lambda>(k, v). (k, JSON_value v)) (filter (\<lambda>(k, v). v \<noteq> Undefined) ps))"
| "JSON_value v = v"

definition JSON_stringify :: "(jsstring \<times> jsval) list \<Rightarrow> (jsstring \<times> jsval) list" where
  "JSON_stringify props =
     map (\<lambda>(k, v). (k, JSON_value v)) (filter (\<lambda>(k, v). v \<noteq> Undefined) props)"

section \<open>The handler POST\<close>

text \<open>\<^verbatim>\<open>${x}\<close> in a template literal, for a string that may be \<^verbatim>\<open>undefined\<close>.\<close>

definition to_string :: "jsstring option \<Rightarrow> jsstring" where
  "to_string x = (case x of None \<Rightarrow> js ''undefined'' | Some s \<Rightarrow> s)"

text \<open>
  Lines 59 to 83: \<open>transcriptText\<close> after the metadata call. Reading \<^verbatim>\<open>items[0]\<close>
  of a missing \<^verbatim>\<open>items\<close> throws inside the \<^verbatim>\<open>try\<close>; the \<^verbatim>\<open>catch\<close> only logs.
\<close>

definition video_description :: "platform \<Rightarrow> yt_outcome \<Rightarrow> jsstring throws" where
  "video_description P videoResponse =
     (case videoResponse of
        YtRejected e \<Rightarrow> Inl e
      | YtResolved None \<Rightarrow> Inl (JsError (msg_read_of_undefined P (js ''0'')))
      | YtResolved (Some items) \<Rightarrow>
          (case items of
             [] \<Rightarrow> Inr []
           | None # rest \<Rightarrow> Inr []
           | Some videoData # rest \<Rightarrow>
               (case description videoData of
                  None \<Rightarrow> Inr []
                | Some d \<Rightarrow>
                    if d \<noteq> []
                    then Inr (js ''[Video title: '' @ to_string (title videoData) @
                              js '']'' @ [0x0A, 0x0A] @ d)
                    else Inr [])))"

definition fetch_transcript :: "platform \<Rightarrow> yt_outcome \<Rightarrow> jsstring" where
  "fetch_transcript P videoResponse =
     (case try_catch (video_description P videoResponse) (\<lambda>apiError. Inr []) of
        Inl e \<Rightarrow> []
      | Inr transcriptText \<Rightarrow> transcriptText)"

text \<open>\<^verbatim>\<open>s.trim()\<close>: white space and line terminators are removed at both ends.\<close>

definition is_space :: "jschar \<Rightarrow> bool" where
  "is_space c \<longleftrightarrow>
     (0x0009 \<le> c \<and> c \<le> 0x000D) \<or> c = 0x0020 \<or> c = 0x00A0 \<or> c = 0x1680 \<or>
     (0x2000 \<le> c \<and> c \<le> 0x200A) \<or> c = 0x2028 \<or> c = 0x2029 \<or> c = 0x202F \<or>
     c = 0x205F \<or> c = 0x3000 \<or> c = 0xFEFF"

definition trim :: "jsstring \<Rightarrow> jsstring" where
  "trim s = rev (dropWhile is_space (rev (dropWhile is_space s)))"

text \<open>Lines 88 to 91: \<^verbatim>\<open>errorMessages[locale].noTranscript\<close>.\<close>

definition noTranscript :: "platform \<Rightarrow> jsstring \<Rightarrow> jsval throws" where
  "noTranscript P locale =
     (case get_property errorMessages locale of
        Own m \<Rightarrow> Inr (Str m)
      | Inherited \<Rightarrow> Inr Undefined
      | Absent \<Rightarrow> Inl (JsError (msg_read_of_undefined P (js ''noTranscript''))))"

text \<open>Lines 95 to 98.\<close>

definition trim_for_openai :: "jsstring \<Rightarrow> jsstring" where
  "trim_for_openai transcriptText =
     (if length transcriptText > 60000 then take 60000 transcriptText
      else transcriptText)"

text \<open>Lines 105 to 121: the two messages and the fixed parameters of the call.\<close>

definition system_content :: "jsstring \<Rightarrow> content" where
  "system_content locale =
     (case get_property systemPrompts locale of
        Own p \<Rightarrow> Text p
      | Inherited \<Rightarrow> Native locale
      | Absent \<Rightarrow> Text (js ''You are a helpful video summarizer.''))"

definition user_prefix :: "platform \<Rightarrow> jsstring \<Rightarrow> jsstring" where
  "user_prefix P locale =
     (case get_property userPrompts locale of
        Own p \<Rightarrow> p
      | Inherited \<Rightarrow> native_to_string P locale
      | Absent \<Rightarrow> js ''Please summarize this content: '')"

definition chat_request_for :: "platform \<Rightarrow> jsstring \<Rightarrow> jsstring \<Rightarrow> chat_request" where
  "chat_request_for P locale transcriptText =
     \<lparr>messages =
        [\<lparr>role = js ''system'', content = system_content locale\<rparr>,
         \<lparr>role = js ''user'',
          content = Text (user_prefix P locale @ transcriptText)\<rparr>],
      model = js ''gpt-4o'',
      max_tokens = 2000,
      temperature = 7 / 10\<rparr>"

text \<open>Line 124: \<^verbatim>\<open>completion?.choices?.[0]?.message?.content\<close>.\<close>

definition completion_content :: "completion option \<Rightarrow> jsstring option" where
  "completion_content c =
     (case c of
        None \<Rightarrow> None
      | Some (Completion None) \<Rightarrow> None
      | Some (Completion (Some [])) \<Rightarrow> None
      | Some (Completion (Some (Choice None # rest))) \<Rightarrow> None
      | Some (Completion (Some (Choice (Some (ReplyMessage x)) # rest))) \<Rightarrow> x)"

text \<open>Lines 101 to 151: the response made from the answer of the language model.\<close>

definition summarize :: "oa_outcome \<Rightarrow> response throws" where
  "summarize answer =
     try_catch
       (case answer of
          OaRejected e \<Rightarrow> Inl e
        | OaResolved c \<Rightarrow>
            (case completion_content c of
               None \<Rightarrow>
                 Inr \<lparr>status = 500,
                      body = JSON_stringify
                        [(js ''error'', Str (js ''Failed to generate summary''))]\<rparr>
             | Some summary \<Rightarrow>
                 if summary = []
                 then Inr \<lparr>status = 500,
                           body = JSON_stringify
                             [(js ''error'', Str (js ''Failed to generate summary''))]\<rparr>
                 else Inr \<lparr>status = 200,
                           body = JSON_stringify [(js ''summary'', Str summary)]\<rparr>))
       (\<lambda>openaiError.
          Inr \<lparr>status = 500,
               body = JSON_stringify
                 [(js ''error'', Str (js ''OpenAI failed: '' @ message openaiError))]\<rparr>)"

text \<open>
  Lines 41 to 151, the body of the outer \<^verbatim>\<open>try\<close>: the calls made, and the response
  or the error thrown.
\<close>

definition POST_try :: "platform \<Rightarrow> services \<Rightarrow> request \<Rightarrow> outbound list \<times> response throws" where
  "POST_try P S req =
     (case req of
        BodyRejected e \<Rightarrow> ([], Inl e)
      | BodyNull \<Rightarrow> ([], Inl (JsError (msg_destructure_null P)))
      | Body videoUrl given_locale \<Rightarrow>
          (let locale = (case given_locale of None \<Rightarrow> js ''ko'' | Some l \<Rightarrow> l) in
           case extractYouTubeVideoId P videoUrl of
             Inl e \<Rightarrow> ([], Inl e)
           | Inr videoId \<Rightarrow>
               if videoId = []
               then ([], Inr \<lparr>status = 400,
                              body = JSON_stringify
                                [(js ''error'',
                                  Str (js ''Could not extract a valid YouTube video ID from the provided URL.'')),
                                 (js ''receivedUrl'', videoUrl)]\<rparr>)
               else
                 (let transcriptText = fetch_transcript P (youtube_videos S videoId) in
                  if trim transcriptText = []
                  then ([YouTubeVideos videoId],
                        case noTranscript P locale of
                          Inl e \<Rightarrow> Inl e
                        | Inr m \<Rightarrow>
                            Inr \<lparr>status = 400,
                                 body = JSON_stringify [(js ''error'', m)]\<rparr>)
                  else
                    (let request = chat_request_for P locale (trim_for_openai transcriptText) in
                     ([YouTubeVideos videoId, ChatCompletion request],
                      summarize (chat_completions_create S request))))))"

text \<open>Lines 39 to 165: the outer \<^verbatim>\<open>catch\<close> turns any error into a response 500.\<close>

definition POST :: "platform \<Rightarrow> services \<Rightarrow> request \<Rightarrow> outbound list \<times> response" where
  "POST P S req =
     (case POST_try P S req of
        (calls, Inr r) \<Rightarrow> (calls, r)
      | (calls, Inl error) \<Rightarrow>
          (calls,
           \<lparr>status = 500,
            body = JSON_stringify
              [(js ''error'',
                Str (if message error \<noteq> [] then message error
                     else js ''An unexpected error occurred''))]\<rparr>))"

section \<open>Definitions the statements are written with\<close>

text \<open>
  The extractor without the special case of lines 177 to 181: the same function with
  those lines taken out.
\<close>

definition extractYouTubeVideoId_without_shortcut :: "platform \<Rightarrow> jsval \<Rightarrow> jsstring throws" where
  "extractYouTubeVideoId_without_shortcut P url =
     (if \<not> truthy url \<or> \<not> is_string url then Inr []
      else case url of
             Str s \<Rightarrow> extract_general P s
           | _ \<Rightarrow> Inr [])"

text \<open>
  The reading of the fallback as "the first contiguous run of exactly 11 characters":
  the maximal runs of class characters of a string, in order, and the first of them
  that is 11 long.
\<close>

function id_runs :: "jsstring \<Rightarrow> jsstring list" where
  "id_runs [] = []"
| "id_runs (c # cs) =
     (if is_id_char c
      then takeWhile is_id_char (c # cs) # id_runs (dropWhile is_id_char cs)
      else id_runs cs)"
  by pat_completeness auto
termination
  by (relation "measure length") (auto simp: le_imp_less_Suc length_dropWhile_le)

definition first_run_of_exactly_11 :: "jsstring \<Rightarrow> jsstring option" where
  "first_run_of_exactly_11 s = find (\<lambda>r. length r = 11) (id_runs s)"

text \<open>
  A metadata answer without a usable description: the call failed, or there is no
  first item, no snippet, no description, or an empty one.
\<close>

fun no_usable_description :: "yt_outcome \<Rightarrow> bool" where
  "no_usable_description (YtRejected e) = True"
| "no_usable_description (YtResolved None) = True"
| "no_usable_description (YtResolved (Some [])) = True"
| "no_usable_description (YtResolved (Some (None # rest))) = True"
| "no_usable_description (YtResolved (Some (Some videoData # rest))) =
     (description videoData = None \<or> description videoData = Some [])"

text \<open>
  A completion that lacks the expected text: no completion, no choices, no first
  choice, no message, no content, or an empty content.
\<close>

fun lacks_text :: "completion option \<Rightarrow> bool" where
  "lacks_text None = True"
| "lacks_text (Some (Completion None)) = True"
| "lacks_text (Some (Completion (Some []))) = True"
| "lacks_text (Some (Completion (Some (Choice None # rest)))) = True"
| "lacks_text (Some (Completion (Some (Choice (Some (ReplyMessage x)) # rest)))) =
     (x = None \<or> x = Some [])"

text \<open>The class \<^verbatim>\<open>[a-zA-Z0-9_-]\<close> on code points.\<close>

definition id_code :: "nat \<Rightarrow> bool" where
  "id_code n \<longleftrightarrow>
     (0x61 \<le> n \<and> n \<le> 0x7A) \<or> (0x41 \<le> n \<and> n \<le> 0x5A) \<or>
     (0x30 \<le> n \<and> n \<le> 0x39) \<or> n = 0x5F \<or> n = 0x2D"

section \<open>A sample runtime and sample collaborators\<close>

text \<open>
  A runtime for the examples below. Its URL parser accepts \<^verbatim>\<open>http://\<close> or
  \<^verbatim>\<open>https://\<close>, then a host of labels of lower-case letters joined by single dots,
  then nothing or a rest that begins with \<open>/\<close>, \<open>?\<close> or \<open>#\<close>: strings that the
  standard's parser accepts too. It throws on every other string; the examples use
  this only on strings without a scheme, on which the standard's parser throws as
  well. The messages and the text of native members are those of V8.
\<close>

definition sample_host :: "jsstring \<Rightarrow> bool" where
  "sample_host h \<longleftrightarrow>
     h \<noteq> [] \<and> list_all (\<lambda>c. (0x61 \<le> c \<and> c \<le> 0x7A) \<or> c = 0x2E) h \<and>
     hd h \<noteq> 0x2E \<and> last h \<noteq> 0x2E \<and> \<not> str_includes h (js ''..'')"

definition sample_accepts :: "jsstring \<Rightarrow> bool" where
  "sample_accepts url \<longleftrightarrow>
     (if prefix (js ''https://'') url
      then sample_host (takeWhile (\<lambda>c. c \<noteq> 0x2F \<and> c \<noteq> 0x3F \<and> c \<noteq> 0x23) (drop 8 url))
      else if prefix (js ''http://'') url
      then sample_host (takeWhile (\<lambda>c. c \<noteq> 0x2F \<and> c \<noteq> 0x3F \<and> c \<noteq> 0x23) (drop 7 url))
      else False)"

definition sample_platform :: platform where
  "sample_platform =
     \<lparr>URL_failure = (\<lambda>url.
        if sample_accepts url then None else Some (JsError (js ''Invalid URL''))),
      msg_destructure_null =
        js ''Cannot destructure property '' @ [0x27] @ js ''videoUrl'' @ [0x27] @
        js '' of '' @ [0x27] @ js ''(intermediate value)'' @ [0x27] @ js '' as it is null.'',
      msg_read_of_undefined = (\<lambda>name.
        js ''Cannot read properties of undefined (reading '' @ [0x27] @ name @ [0x27] @ js '')''),
      native_to_string = (\<lambda>key.
        if key = js ''__proto__'' then js ''[object Object]''
        else if key = js ''constructor'' then js ''function Object() { [native code] }''
        else js ''function '' @ key @ js ''() { [native code] }'')\<rparr>"

definition constant_services :: "yt_outcome \<Rightarrow> oa_outcome \<Rightarrow> services" where
  "constant_services videoResponse answer =
     \<lparr>youtube_videos = (\<lambda>videoId. videoResponse),
      chat_completions_create = (\<lambda>request. answer)\<rparr>"

section \<open>Facts about the string operations\<close>

lemma str_includes_sublist: "str_includes s m \<longleftrightarrow> sublist m s"
  by (induction s) (auto simp: sublist_Cons_right)

lemma prefix_within:
  assumes "prefix sep (x @ sep @ a)" and "x \<noteq> []"
  shows "prefix sep (x @ butlast sep)"
proof (cases "sep = []")
  case True
  then show ?thesis by simp
next
  case False
  then have split: "x @ sep @ a = (x @ butlast sep) @ (last sep # a)" by simp
  from assms(1) have "prefix sep ((x @ butlast sep) @ (last sep # a))"
    unfolding split .
  then consider "prefix sep (x @ butlast sep)"
    | us where "sep = (x @ butlast sep) @ us"
    by (auto simp only: prefix_append)
  then show ?thesis
  proof cases
    case 1
    then show ?thesis .
  next
    case 2
    then have "length sep = length x + (length sep - 1) + length us"
      by (metis length_append length_butlast)
    moreover from False have "0 < length sep" by simp
    moreover from assms(2) have "0 < length x" by simp
    ultimately have "length us = 0" by arith
    then have "us = []" by simp
    with 2 have "sep = x @ butlast sep" by simp
    then show ?thesis by (metis prefix_order.order_refl)
  qed
qed

lemma break_at_first:
  assumes "sep \<noteq> []" and "\<not> sublist sep (b @ butlast sep)"
  shows "break_at sep (b @ sep @ a) = Some (b, a)"
  using assms(2)
proof (induction b)
  case Nil
  from assms(1) obtain c cs where sep: "sep = c # cs" by (cases sep) auto
  then show ?case by simp
next
  case (Cons c b)
  have "\<not> prefix sep ((c # b) @ sep @ a)"
  proof
    assume "prefix sep ((c # b) @ sep @ a)"
    then have "prefix sep ((c # b) @ butlast sep)" by (rule prefix_within) simp
    then have "sublist sep ((c # b) @ butlast sep)" by (rule prefix_imp_sublist)
    with Cons.prems show False by contradiction
  qed
  moreover from Cons.prems have "\<not> sublist sep (b @ butlast sep)"
    by (simp add: sublist_Cons_right)
  ultimately show ?case using Cons.IH by simp
qed

lemma break_at_Some:
  "break_at sep s = Some (b, a) \<Longrightarrow> s = b @ sep @ a"
proof (induction s arbitrary: b)
  case Nil
  then show ?case by simp
next
  case (Cons c cs)
  show ?case
  proof (cases "prefix sep (c # cs)")
    case True
    with Cons.prems have "b = []" and "a = drop (length sep) (c # cs)" by auto
    moreover from True obtain zs where "c # cs = sep @ zs" by (auto simp: prefix_def)
    ultimately show ?thesis by simp
  next
    case False
    with Cons.prems obtain b' where "break_at sep cs = Some (b', a)" and "b = c # b'"
      by (auto simp: apfst_def map_prod_def split: prod.splits)
    with Cons.IH show ?thesis by auto
  qed
qed

lemma split_str_nonempty_sep:
  "sep \<noteq> [] \<Longrightarrow> split_str s sep =
     (case break_at sep s of None \<Rightarrow> [s] | Some (b, a) \<Rightarrow> b # split_str a sep)"
  by (subst split_str.simps) simp

lemma split_str_not_Nil: "sep \<noteq> [] \<Longrightarrow> split_str s sep \<noteq> []"
  by (subst split_str.simps) (simp split: option.splits prod.splits)

lemma hd_split_str:
  "sep \<noteq> [] \<Longrightarrow> hd (split_str s sep) = (case break_at sep s of None \<Rightarrow> s | Some (b, a) \<Rightarrow> b)"
  by (subst split_str.simps) (simp split: option.splits prod.splits)

lemma first_piece: "(case split_delim x of [] \<Rightarrow> [] | y # ys \<Rightarrow> y) = takeWhile (\<lambda>c. \<not> is_delim c) x"
  by (induction x) (auto split: list.splits)

lemma after_marker_first:
  assumes "sep \<noteq> []" and "\<not> sublist sep (p @ butlast sep)"
  shows "after_marker (p @ sep @ r) sep =
     takeWhile (\<lambda>c. \<not> is_delim c) (case break_at sep r of None \<Rightarrow> r | Some (b, a) \<Rightarrow> b)"
proof -
  have parts: "split_str (p @ sep @ r) sep = p # split_str r sep"
    using assms by (simp add: split_str_nonempty_sep [of sep "p @ sep @ r"] break_at_first)
  obtain x xs where rest: "split_str r sep = x # xs"
    using split_str_not_Nil [OF assms(1), of r] by (cases "split_str r sep") auto
  then have "x = hd (split_str r sep)" by simp
  then have "x = (case break_at sep r of None \<Rightarrow> r | Some (b, a) \<Rightarrow> b)"
    using hd_split_str [OF assms(1), of r] by simp
  with parts rest show ?thesis
    by (simp add: after_marker_def first_piece)
qed

lemma id_char_not_delim: "is_id_char c \<Longrightarrow> \<not> is_delim c"
  by (auto simp: is_id_char_def is_delim_def)

lemma takeWhile_id:
  assumes "list_all is_id_char vid" and "t = [] \<or> is_delim (hd t)"
  shows "takeWhile (\<lambda>c. \<not> is_delim c) (vid @ t) = vid"
proof -
  from assms(1) have "\<forall>c\<in>set vid. \<not> is_delim c"
    by (auto simp: list_all_iff id_char_not_delim)
  then have "takeWhile (\<lambda>c. \<not> is_delim c) (vid @ t) = vid @ takeWhile (\<lambda>c. \<not> is_delim c) t"
    by (simp add: takeWhile_append2)
  moreover from assms(2) have "takeWhile (\<lambda>c. \<not> is_delim c) t = []"
    by (cases t) auto
  ultimately show ?thesis by simp
qed

lemma occurrence_after_id:
  assumes eq: "vid @ t = b @ sep @ a"
    and sep: "\<forall>c\<in>set sep. \<not> is_delim c" "\<not> is_id_char (last sep)" "sep \<noteq> []"
    and vid: "list_all is_id_char vid"
    and t: "t = [] \<or> is_delim (hd t)"
  obtains b' where "b = vid @ b'" and "b' = [] \<or> is_delim (hd b')"
proof -
  from eq obtain us where
    us: "(vid = b @ us \<and> us @ t = sep @ a) \<or> (vid @ us = b \<and> t = us @ sep @ a)"
    by (auto simp: append_eq_append_conv2)
  show ?thesis
  proof (cases "vid @ us = b \<and> t = us @ sep @ a")
    case True
    with t have "us = [] \<or> is_delim (hd us)" by (cases us) auto
    with True that show ?thesis by blast
  next
    case False
    with us have inside: "vid = b @ us" "us @ t = sep @ a" by auto
    show ?thesis
    proof (cases "us = []")
      case True
      with inside that show ?thesis by simp
    next
      case False
      from inside(2) obtain ws where
        ws: "(us = sep @ ws \<and> ws @ t = a) \<or> (us @ ws = sep \<and> t = ws @ a)"
        by (auto simp: append_eq_append_conv2)
      have "False"
      proof (cases "ws = [] \<or> us = sep @ ws")
        case True
        with ws have "set sep \<subseteq> set us" by auto
        with sep(3) have "last sep \<in> set us" using last_in_set by blast
        with inside(1) vid have "is_id_char (last sep)" by (auto simp: list_all_iff)
        with sep(2) show False by contradiction
      next
        case False
        with ws have "us @ ws = sep" "t = ws @ a" "ws \<noteq> []" by auto
        then have "hd ws \<in> set sep" "hd t = hd ws" "t \<noteq> []" by (cases ws; auto)+
        with t sep(1) show False by auto
      qed
      then show ?thesis ..
    qed
  qed
qed

lemma after_marker_id:
  assumes sep: "\<forall>c\<in>set sep. \<not> is_delim c" "\<not> is_id_char (last sep)" "sep \<noteq> []"
    and vid: "list_all is_id_char vid"
    and t: "t = [] \<or> is_delim (hd t)"
    and first: "\<not> str_includes (p @ butlast sep) sep"
  shows "after_marker (p @ sep @ vid @ t) sep = vid"
proof -
  from first have "\<not> sublist sep (p @ butlast sep)" by (simp add: str_includes_sublist)
  with sep(3) have *: "after_marker (p @ sep @ vid @ t) sep =
      takeWhile (\<lambda>c. \<not> is_delim c)
        (case break_at sep (vid @ t) of None \<Rightarrow> vid @ t | Some (b, a) \<Rightarrow> b)"
    by (rule after_marker_first)
  show ?thesis
  proof (cases "break_at sep (vid @ t)")
    case None
    with * vid t show ?thesis by (simp add: takeWhile_id)
  next
    case (Some ba)
    obtain b a where ba: "ba = (b, a)" by (cases ba)
    with Some have "vid @ t = b @ sep @ a" by (simp add: break_at_Some)
    then obtain b' where "b = vid @ b'" and "b' = [] \<or> is_delim (hd b')"
      using sep vid t by (rule occurrence_after_id)
    with * Some ba vid show ?thesis by (simp add: takeWhile_id)
  qed
qed

lemma marker_facts:
  "\<forall>c\<in>set youtu_be. \<not> is_delim c" "\<not> is_id_char (last youtu_be)" "youtu_be \<noteq> []"
  "\<forall>c\<in>set youtube_v. \<not> is_delim c" "\<not> is_id_char (last youtube_v)" "youtube_v \<noteq> []"
  "\<forall>c\<in>set youtube_embed. \<not> is_delim c" "\<not> is_id_char (last youtube_embed)" "youtube_embed \<noteq> []"
  by (simp_all add: youtu_be_def youtube_v_def youtube_embed_def js_def is_delim_def is_id_char_def)

section \<open>Facts about the extractor\<close>

lemma extract_candidate_caught:
  "\<exists>c. try_catch (extract_candidate P s) (\<lambda>error. Inr []) = Inr c"
  by (cases "extract_candidate P s") (simp_all add: try_catch_def)

lemma extract_general_result:
  "\<exists>r. extract_general P s = Inr r \<and> (r = [] \<or> test11 r)"
proof -
  obtain c where "try_catch (extract_candidate P s) (\<lambda>error. Inr []) = Inr c"
    using extract_candidate_caught by blast
  then show ?thesis by (simp add: extract_general_def)
qed

lemma extract_general_of_candidate:
  "extract_candidate P s = Inr c \<Longrightarrow> test11 c \<Longrightarrow> extract_general P s = Inr c"
  by (auto simp: extract_general_def try_catch_def test11_def)

lemma extract_general_test_url:
  "extract_general P test_url = Inr (js ''QiZ62yswdPw'')"
  by code_simp

lemma test_url_not_Nil: "test_url \<noteq> []"
  by (simp add: test_url_def js_def)

lemma extract_not_string:
  "\<not> is_string v \<Longrightarrow> extractYouTubeVideoId P v = Inr []"
  by (simp add: extractYouTubeVideoId_def)

lemma extract_Str:
  "extractYouTubeVideoId P (Str s) = (if s = [] then Inr [] else extract_general P s)"
  by (simp add: extractYouTubeVideoId_def extract_general_test_url)

lemma extract_result:
  "\<exists>r. extractYouTubeVideoId P v = Inr r \<and> (r = [] \<or> test11 r)"
proof (cases v)
  case (Str s)
  then show ?thesis using extract_general_result [of P s] by (simp add: extract_Str)
qed (simp_all add: extract_not_string)

lemma str_includes_shape: "str_includes (p @ m @ r) m"
  by (simp add: str_includes_sublist)

lemma test11_id: "length vid = 11 \<Longrightarrow> list_all is_id_char vid \<Longrightarrow> test11 vid"
  by (simp add: test11_def)

lemma watch_param_throwing:
  "URL_new P s = Inl e \<Longrightarrow> watch_param P s = Inr []"
  by (simp add: watch_param_def try_catch_def)

lemma watch_param_found:
  "URL_new P s = Inr u \<Longrightarrow> searchParams_get u (js ''v'') = Some v \<Longrightarrow> watch_param P s = Inr v"
  by (simp add: watch_param_def try_catch_def)


section \<open>The extractor returns a validated identifier or nothing\<close>

text \<open>
  Claim C2. For every input, \<open>extractYouTubeVideoId\<close> returns, without throwing, either
  the empty string ("no identifier") or a string of exactly 11 characters of the class
  \<^verbatim>\<open>[A-Za-z0-9_-]\<close>. This holds for every runtime \<open>P\<close>, so for whatever the URL parser
  reads, and on the path through the hard-coded test URL, whose result does not pass
  through the final test.
\<close>

theorem extract_returns_validated_or_empty:
  "\<exists>r. extractYouTubeVideoId P url = Inr r \<and>
        (r = [] \<or> length r = 11 \<and> list_all is_id_char r)"
  using extract_result [of P url] by (simp add: test11_def)

theorem extract_returns_validated_or_empty_witness:
  "\<exists>r. extractYouTubeVideoId sample_platform (Str test_url) = Inr r \<and>
        r = js ''QiZ62yswdPw'' \<and> length r = 11 \<and> list_all is_id_char r"
  using extract_returns_validated_or_empty [of sample_platform "Str test_url"]
  by (auto simp: extractYouTubeVideoId_def test_url_not_Nil js_def)

section \<open>The extractor never throws\<close>

text \<open>
  Claim C3. \<open>extractYouTubeVideoId\<close> never throws: for every input it returns a value.
  On the empty string, on \<^verbatim>\<open>null\<close>, on \<^verbatim>\<open>undefined\<close> and on every other value
  that is not a string it returns "no identifier"; and when a string holding
  \<^verbatim>\<open>youtube.com/watch\<close> (and not \<^verbatim>\<open>youtu.be/\<close>, which is tested first) makes the URL
  parser throw, the error is caught and the result is "no identifier".
\<close>

theorem extract_never_throws:
  "(\<exists>r. extractYouTubeVideoId P url = Inr r) \<and>
   extractYouTubeVideoId P (Str []) = Inr [] \<and>
   extractYouTubeVideoId P Null = Inr [] \<and>
   extractYouTubeVideoId P Undefined = Inr [] \<and>
   (\<not> is_string url \<longrightarrow> extractYouTubeVideoId P url = Inr []) \<and>
   (str_includes s youtube_watch \<and> \<not> str_includes s youtu_be \<and> URL_new P s = Inl e \<longrightarrow>
      extractYouTubeVideoId P (Str s) = Inr [])"
proof -
  have "extractYouTubeVideoId P (Str s) = Inr []"
    if "str_includes s youtube_watch" "\<not> str_includes s youtu_be" "URL_new P s = Inl e"
  proof -
    from that have "extract_candidate P s = Inr []"
      by (simp add: extract_candidate_def watch_param_throwing)
    then have "extract_general P s = Inr []"
      by (simp add: extract_general_def try_catch_def)
    then show ?thesis by (simp add: extract_Str)
  qed
  moreover have "\<exists>r. extractYouTubeVideoId P url = Inr r"
    using extract_result [of P url] by blast
  ultimately show ?thesis by (simp add: extract_not_string extract_Str)
qed


theorem extract_never_throws_witness:
  "is_string Null = False \<and>
   str_includes (js ''youtube.com/watch?v=dQw4w9WgXcQ'') youtube_watch \<and>
   \<not> str_includes (js ''youtube.com/watch?v=dQw4w9WgXcQ'') youtu_be \<and>
   URL_new sample_platform (js ''youtube.com/watch?v=dQw4w9WgXcQ'') = Inl (JsError (js ''Invalid URL'')) \<and>
   extractYouTubeVideoId sample_platform (Str (js ''youtube.com/watch?v=dQw4w9WgXcQ'')) = Inr [] \<and>
   extractYouTubeVideoId sample_platform Null = Inr []"
proof -
  have 1: "str_includes (js ''youtube.com/watch?v=dQw4w9WgXcQ'') youtube_watch"
    by (simp add: js_def youtube_watch_def)
  have 2: "\<not> str_includes (js ''youtube.com/watch?v=dQw4w9WgXcQ'') youtu_be"
    by (simp add: js_def youtu_be_def)
  have 3: "URL_new sample_platform (js ''youtube.com/watch?v=dQw4w9WgXcQ'') = Inl (JsError (js ''Invalid URL''))"
    by code_simp
  show ?thesis
    using 1 2 3
      extract_never_throws [of sample_platform Null "js ''youtube.com/watch?v=dQw4w9WgXcQ''" "JsError (js ''Invalid URL'')"]
    by simp
qed

section \<open>The special case for the test URL changes nothing\<close>

text \<open>
  Claim C10. The early return for the exact string
  \<^verbatim>\<open>https://youtu.be/QiZ62yswdPw?si=IHWvSDSvLUQXqYpm\<close> preserves behaviour: on every
  input the function returns what it returns with lines 177 to 181 taken out, and on
  that string both return \<^verbatim>\<open>QiZ62yswdPw\<close>, which the \<^verbatim>\<open>youtu.be/\<close> branch and the
  final test produce.
\<close>

theorem shortcut_preserves_result:
  "extractYouTubeVideoId P url = extractYouTubeVideoId_without_shortcut P url \<and>
   str_includes test_url youtu_be \<and>
   after_marker test_url youtu_be = js ''QiZ62yswdPw'' \<and>
   test11 (js ''QiZ62yswdPw'') \<and>
   extractYouTubeVideoId_without_shortcut P (Str test_url) = Inr (js ''QiZ62yswdPw'') \<and>
   extractYouTubeVideoId P (Str test_url) = Inr (js ''QiZ62yswdPw'')"
proof -
  have "str_includes test_url youtu_be"
    by (simp add: test_url_def youtu_be_def js_def)
  moreover have "after_marker test_url youtu_be = js ''QiZ62yswdPw''"
    by code_simp
  moreover have "test11 (js ''QiZ62yswdPw'')"
    by (simp add: test11_def js_def is_id_char_def)
  moreover have "extractYouTubeVideoId P url = extractYouTubeVideoId_without_shortcut P url"
    by (cases url)
      (simp_all add: extractYouTubeVideoId_def extractYouTubeVideoId_without_shortcut_def
         extract_general_test_url)
  moreover have "extractYouTubeVideoId_without_shortcut P (Str test_url) = Inr (js ''QiZ62yswdPw'')"
    by (simp add: extractYouTubeVideoId_without_shortcut_def extract_general_test_url
        test_url_not_Nil)
  moreover have "extractYouTubeVideoId P (Str test_url) = Inr (js ''QiZ62yswdPw'')"
    by (simp add: extractYouTubeVideoId_def test_url_not_Nil)
  ultimately show ?thesis by blast
qed

theorem shortcut_preserves_result_witness:
  "extractYouTubeVideoId sample_platform (Str test_url) =
     extractYouTubeVideoId_without_shortcut sample_platform (Str test_url) \<and>
   extractYouTubeVideoId_without_shortcut sample_platform (Str test_url) =
     Inr (js ''QiZ62yswdPw'')"
  using shortcut_preserves_result [of sample_platform "Str test_url"] by simp

section \<open>The fallback scan\<close>

lemma match11_Some:
  "match11 s = Some m \<Longrightarrow>
     \<exists>i. i + 11 \<le> length s \<and> m = take 11 (drop i s) \<and> list_all is_id_char m \<and>
         (\<forall>j<i. \<not> list_all is_id_char (take 11 (drop j s)))"
proof (induction s)
  case Nil
  then show ?case by simp
next
  case (Cons c cs)
  define w where "w = take 11 (c # cs)"
  have step: "match11 (c # cs) =
      (if length w = 11 \<and> list_all is_id_char w then Some w else match11 cs)"
    by (simp add: w_def)
  have w0: "w = take 11 (drop 0 (c # cs))" by (simp add: w_def)
  show ?case
  proof (cases "length w = 11 \<and> list_all is_id_char w")
    case True
    with Cons.prems step have "m = w" by simp
    moreover from True have "0 + 11 \<le> length (c # cs)" by (auto simp: w_def)
    ultimately have "0 + 11 \<le> length (c # cs) \<and> m = take 11 (drop 0 (c # cs)) \<and>
        list_all is_id_char m \<and> (\<forall>j<0. \<not> list_all is_id_char (take 11 (drop j (c # cs))))"
      using True w0 by simp
    then show ?thesis by blast
  next
    case False
    with Cons.prems step have "match11 cs = Some m" by simp
    with Cons.IH obtain i where i: "i + 11 \<le> length cs" "m = take 11 (drop i cs)"
      "list_all is_id_char m" "\<forall>j<i. \<not> list_all is_id_char (take 11 (drop j cs))"
      by blast
    from i(1) have "length w = 11" by (simp add: w_def)
    with False have first: "\<not> list_all is_id_char w" by blast
    have "\<not> list_all is_id_char (take 11 (drop j (c # cs)))" if "j < Suc i" for j
    proof (cases j)
      case 0
      with first w0 show ?thesis by simp
    next
      case (Suc k)
      with that i(4) show ?thesis by simp
    qed
    with i have "Suc i + 11 \<le> length (c # cs) \<and> m = take 11 (drop (Suc i) (c # cs)) \<and>
        list_all is_id_char m \<and>
        (\<forall>j<Suc i. \<not> list_all is_id_char (take 11 (drop j (c # cs))))"
      by simp
    then show ?thesis by blast
  qed
qed

lemma match11_None:
  "match11 s = None \<Longrightarrow> i + 11 \<le> length s \<Longrightarrow> \<not> list_all is_id_char (take 11 (drop i s))"
proof (induction s arbitrary: i)
  case Nil
  then show ?case by simp
next
  case (Cons c cs)
  define w where "w = take 11 (c # cs)"
  have step: "match11 (c # cs) =
      (if length w = 11 \<and> list_all is_id_char w then Some w else match11 cs)"
    by (simp add: w_def)
  have w0: "w = take 11 (drop 0 (c # cs))" by (simp add: w_def)
  from Cons.prems(1) step have rest: "match11 cs = None"
    and first: "\<not> (length w = 11 \<and> list_all is_id_char w)"
    by (auto split: if_splits)
  show ?case
  proof (cases i)
    case 0
    with Cons.prems(2) have "length w = 11" by (simp add: w_def)
    with first 0 w0 show ?thesis by simp
  next
    case (Suc k)
    with Cons.prems(2) have "k + 11 \<le> length cs" by simp
    with rest Cons.IH Suc show ?thesis by simp
  qed
qed

lemma fallback_candidate:
  assumes "\<not> str_includes s youtu_be" "\<not> str_includes s youtube_watch"
    "\<not> str_includes s youtube_v" "\<not> str_includes s youtube_embed" "s \<noteq> []"
  shows "extractYouTubeVideoId P (Str s) = Inr (case match11 s of None \<Rightarrow> [] | Some m \<Rightarrow> m)"
proof (cases "match11 s")
  case None
  with assms show ?thesis
    by (simp add: extract_Str extract_general_def extract_candidate_def try_catch_def)
next
  case (Some m)
  then have "test11 m" using match11_Some [of s m] by (auto simp: test11_def)
  moreover from Some assms have "extract_candidate P s = Inr m"
    by (simp add: extract_candidate_def)
  ultimately have "extract_general P s = Inr m" by (simp add: extract_general_of_candidate)
  with Some assms show ?thesis by (simp add: extract_Str)
qed


text \<open>
  Claim C4, as the code has it. For every non-empty string that holds none of the four
  markers, the extractor returns the leftmost window of eleven consecutive characters
  of the class \<^verbatim>\<open>[A-Za-z0-9_-]\<close>: the eleven characters at the least position \<open>i\<close> where
  eleven class characters follow each other. When there is no such window it returns
  "no identifier". The window need not be a whole run: a run of twelve or more class
  characters gives its first eleven.
\<close>

theorem fallback_scan:
  assumes "s \<noteq> []" and "\<not> str_includes s youtu_be" and "\<not> str_includes s youtube_watch"
    and "\<not> str_includes s youtube_v" and "\<not> str_includes s youtube_embed"
  shows "(\<exists>i. i + 11 \<le> length s \<and> list_all is_id_char (take 11 (drop i s)) \<and>
            (\<forall>j<i. \<not> list_all is_id_char (take 11 (drop j s))) \<and>
            extractYouTubeVideoId P (Str s) = Inr (take 11 (drop i s))) \<or>
         ((\<forall>i. i + 11 \<le> length s \<longrightarrow> \<not> list_all is_id_char (take 11 (drop i s))) \<and>
          extractYouTubeVideoId P (Str s) = Inr [])"
proof (cases "match11 s")
  case None
  then have "\<forall>i. i + 11 \<le> length s \<longrightarrow> \<not> list_all is_id_char (take 11 (drop i s))"
    by (blast dest: match11_None)
  moreover from None assms have "extractYouTubeVideoId P (Str s) = Inr []"
    by (simp add: fallback_candidate)
  ultimately show ?thesis by blast
next
  case (Some m)
  then obtain i where "i + 11 \<le> length s" "m = take 11 (drop i s)" "list_all is_id_char m"
    "\<forall>j<i. \<not> list_all is_id_char (take 11 (drop j s))"
    using match11_Some by blast
  moreover from Some assms have "extractYouTubeVideoId P (Str s) = Inr m"
    by (simp add: fallback_candidate)
  ultimately show ?thesis by blast
qed


theorem fallback_scan_witness:
  "js ''abcdefghijkl'' \<noteq> [] \<and>
   \<not> str_includes (js ''abcdefghijkl'') youtu_be \<and>
   \<not> str_includes (js ''abcdefghijkl'') youtube_watch \<and>
   \<not> str_includes (js ''abcdefghijkl'') youtube_v \<and>
   \<not> str_includes (js ''abcdefghijkl'') youtube_embed \<and>
   extractYouTubeVideoId sample_platform (Str (js ''abcdefghijkl'')) = Inr (js ''abcdefghijk'') \<and>
   ((\<exists>i. i + 11 \<le> length (js ''abcdefghijkl'') \<and>
         list_all is_id_char (take 11 (drop i (js ''abcdefghijkl''))) \<and>
         (\<forall>j<i. \<not> list_all is_id_char (take 11 (drop j (js ''abcdefghijkl'')))) \<and>
         extractYouTubeVideoId sample_platform (Str (js ''abcdefghijkl'')) =
           Inr (take 11 (drop i (js ''abcdefghijkl'')))) \<or>
    ((\<forall>i. i + 11 \<le> length (js ''abcdefghijkl'') \<longrightarrow>
          \<not> list_all is_id_char (take 11 (drop i (js ''abcdefghijkl'')))) \<and>
     extractYouTubeVideoId sample_platform (Str (js ''abcdefghijkl'')) = Inr []))"
proof -
  have h: "js ''abcdefghijkl'' \<noteq> []"
    "\<not> str_includes (js ''abcdefghijkl'') youtu_be"
    "\<not> str_includes (js ''abcdefghijkl'') youtube_watch"
    "\<not> str_includes (js ''abcdefghijkl'') youtube_v"
    "\<not> str_includes (js ''abcdefghijkl'') youtube_embed"
    by (simp_all add: js_def youtu_be_def youtube_watch_def youtube_v_def youtube_embed_def)
  have v: "extractYouTubeVideoId sample_platform (Str (js ''abcdefghijkl'')) = Inr (js ''abcdefghijk'')"
    by code_simp
  from h v fallback_scan [OF h, of sample_platform] show ?thesis by blast
qed


text \<open>
  Claim C4 as stated fails: the only run of class characters of \<^verbatim>\<open>abcdefghijkl\<close> is
  twelve long, so there is no run of exactly eleven, and yet the extractor returns
  \<^verbatim>\<open>abcdefghijk\<close>, not "no identifier".
\<close>

theorem fallback_run_of_12_counterexample:
  "js ''abcdefghijkl'' \<noteq> [] \<and>
   \<not> str_includes (js ''abcdefghijkl'') youtu_be \<and>
   \<not> str_includes (js ''abcdefghijkl'') youtube_watch \<and>
   \<not> str_includes (js ''abcdefghijkl'') youtube_v \<and>
   \<not> str_includes (js ''abcdefghijkl'') youtube_embed \<and>
   id_runs (js ''abcdefghijkl'') = [js ''abcdefghijkl''] \<and>
   length (js ''abcdefghijkl'') = 12 \<and>
   first_run_of_exactly_11 (js ''abcdefghijkl'') = None \<and>
   extractYouTubeVideoId sample_platform (Str (js ''abcdefghijkl'')) = Inr (js ''abcdefghijk'')"
  by code_simp

section \<open>Facts about the query and the search parameters\<close>

lemma id_code_unat: "is_id_char c \<Longrightarrow> id_code (unat c)"
  by (auto simp: is_id_char_def id_code_def word_le_nat_alt)

lemma not_surrogate_small:
  "unat c < 0x80 \<Longrightarrow> \<not> is_high_surrogate c \<and> \<not> is_low_surrogate c \<and> scalar c = unat c"
  by (auto simp: is_high_surrogate_def is_low_surrogate_def scalar_def word_le_nat_alt)

lemma code_points_Cons:
  "\<not> is_high_surrogate c \<Longrightarrow> code_points (c # cs) = scalar c # code_points cs"
  by (cases cs) simp_all

lemma code_points_append_left:
  "r = [] \<or> \<not> is_low_surrogate (hd r) \<Longrightarrow> code_points (x @ r) = code_points x @ code_points r"
proof (induction x rule: code_points.induct)
  case 1
  then show ?case by simp
next
  case (2 c)
  then show ?case by (cases r) auto
next
  case (3 c d cs)
  then show ?case by simp
qed

lemma code_points_small:
  "\<forall>c\<in>set x. unat c < 0x80 \<Longrightarrow> code_points x = map unat x"
proof (induction x)
  case Nil
  then show ?case by simp
next
  case (Cons c cs)
  then show ?case by (simp add: code_points_Cons not_surrogate_small)
qed

lemma code_points_small_append:
  assumes "\<forall>c\<in>set x. unat c < 0x80"
  shows "code_points (x @ r) = map unat x @ code_points r"
  using assms
proof (induction x)
  case Nil
  then show ?case by simp
next
  case (Cons c cs)
  then show ?case by (simp add: code_points_Cons not_surrogate_small)
qed

lemma code_points_members:
  "n \<in> set (code_points x) \<Longrightarrow> n = 0xFFFD \<or> 0x10000 \<le> n \<or> (\<exists>c\<in>set x. n = unat c)"
proof (induction x rule: code_points.induct)
  case 1
  then show ?case by simp
next
  case (2 c)
  then show ?case by (auto simp: scalar_def)
next
  case (3 c d cs)
  then show ?case by (auto simp: scalar_def split: if_splits)
qed

lemma code_points_without:
  assumes "\<forall>c\<in>set x. c \<noteq> of_nat k" and "k < 0x80"
  shows "k \<notin> set (code_points x)"
proof
  assume "k \<in> set (code_points x)"
  with assms(2) obtain c where "c \<in> set x" and "k = unat c"
    using code_points_members [of k x] by auto
  then have "of_nat k = c" by simp
  with assms(1) \<open>c \<in> set x\<close> show False by auto
qed

lemma dropWhile_append_stop:
  "r = [] \<or> \<not> Q (hd r) \<Longrightarrow> dropWhile Q (a @ r) = dropWhile Q a @ r"
proof (induction a)
  case Nil
  then show ?case by (cases r) auto
next
  case (Cons x a)
  then show ?case by simp
qed

lemma takeWhile_all: "\<forall>x\<in>set xs. Q x \<Longrightarrow> takeWhile Q (xs @ ys) = xs @ takeWhile Q ys"
  by (induction xs) auto

lemma dropWhile_all: "\<forall>x\<in>set xs. Q x \<Longrightarrow> dropWhile Q (xs @ ys) = dropWhile Q ys"
  by (induction xs) auto

lemma strip_right:
  assumes "v \<noteq> []" and "\<not> Q (last v)"
  shows "rev (dropWhile Q (rev (a @ v @ t))) = a @ v @ rev (dropWhile Q (rev t))"
proof -
  have "rev (a @ v @ t) = rev t @ (rev v @ rev a)" by simp
  moreover from assms have "rev v @ rev a = [] \<or> \<not> Q (hd (rev v @ rev a))"
    by (simp add: hd_rev)
  ultimately have "dropWhile Q (rev (a @ v @ t)) = dropWhile Q (rev t) @ (rev v @ rev a)"
    by (simp only: dropWhile_append_stop)
  then show ?thesis by simp
qed

lemma id_code_facts:
  assumes "id_code n"
  shows "n < 0x80" "\<not> is_c0_or_space n" "\<not> is_tab_or_newline n" "n \<noteq> 0x3F" "n \<noteq> 0x23"
    "n \<noteq> 0x26" "n \<noteq> 0x3D" "n \<noteq> 0x25" "n \<noteq> 0x2B" "\<not> in_query_set special n"
  using assms
  by (auto simp: id_code_def is_c0_or_space_def is_tab_or_newline_def in_query_set_def)

lemma percent_encode_query_plain:
  "\<forall>n\<in>set X. n < 0x80 \<and> \<not> in_query_set special n \<Longrightarrow>
     percent_encode_query special (X @ R) = X @ percent_encode_query special R"
  by (induction X) (simp_all add: percent_encode_query_def utf8_encode_def percent_encode_byte_def)

lemma split_on_first:
  "\<forall>x\<in>set S. \<not> d x \<Longrightarrow> Q = [] \<or> d (hd Q) \<Longrightarrow> \<exists>rest. split_on d (S @ Q) = S # rest"
proof (induction S)
  case Nil
  then show ?case by (cases Q) auto
next
  case (Cons c S)
  then obtain rest where "split_on d (S @ Q) = S # rest" by auto
  with Cons.prems show ?case by simp
qed

lemma percent_decode_plain: "0x25 \<notin> set X \<Longrightarrow> percent_decode X = X"
  by (induction X rule: percent_decode.induct) auto

lemma utf8_decode_ascii: "\<forall>n\<in>set X. n < 0x80 \<Longrightarrow> utf8_decode Start X = X"
  by (induction X) auto

lemma utf16_small: "\<forall>n\<in>set X. n < 0x10000 \<Longrightarrow> concat (map utf16 X) = map of_nat X"
  by (induction X) (auto simp: utf16_def)

lemma decode_component_plain:
  assumes "\<forall>n\<in>set X. n < 0x80 \<and> n \<noteq> 0x25 \<and> n \<noteq> 0x2B"
  shows "decode_component X = map of_nat X"
proof -
  from assms have "map (\<lambda>b. if b = 0x2B then 0x20 else b) X = X"
    by (induction X) auto
  moreover from assms have "percent_decode X = X" by (auto intro: percent_decode_plain)
  moreover from assms have "utf8_decode Start X = X" by (auto intro: utf8_decode_ascii)
  moreover from assms have "concat (map utf16 X) = map of_nat X" by (auto intro!: utf16_small)
  ultimately show ?thesis by (simp add: decode_component_def)
qed

lemma tail_of_query:
  assumes "t = [] \<or> hd t = 0x26 \<or> hd t = 0x23"
  shows "\<exists>T. takeWhile (\<lambda>n. n \<noteq> 0x23)
               (filter (\<lambda>n. \<not> is_tab_or_newline n) (trim_right (code_points t))) = T \<and>
             (T = [] \<or> hd T = 0x26)"
proof (cases t)
  case Nil
  then show ?thesis by (simp add: trim_right_def)
next
  case (Cons c ts)
  with assms have c: "c = 0x26 \<or> c = 0x23" by simp
  then have "\<not> is_high_surrogate c" and sc: "scalar c = unat c"
    by (auto simp: is_high_surrogate_def is_low_surrogate_def scalar_def)
  with Cons have cp: "code_points t = unat c # code_points ts" by (simp add: code_points_Cons)
  from c have ns: "\<not> is_c0_or_space (unat c)" and nt: "\<not> is_tab_or_newline (unat c)"
    by (auto simp: is_c0_or_space_def is_tab_or_newline_def)
  from ns have "trim_right ([] @ [unat c] @ code_points ts) =
      [] @ [unat c] @ trim_right (code_points ts)"
    unfolding trim_right_def by (intro strip_right) simp_all
  with cp have "trim_right (code_points t) = unat c # trim_right (code_points ts)" by simp
  with nt c show ?thesis by auto
qed

lemma watch_query_param:
  assumes vid: "list_all is_id_char vid" "vid \<noteq> []"
    and p: "\<forall>c\<in>set p. c \<noteq> 0x3F \<and> c \<noteq> 0x23"
    and t: "t = [] \<or> hd t = 0x26 \<or> hd t = 0x23"
  shows "\<exists>rest. map_option urlencoded_parse
           (url_query (p @ youtube_watch @ js ''?v='' @ vid @ t)) = Some ((js ''v'', vid) # rest)"
proof -
  define A where "A = code_points p"
  define Y where "Y = map unat youtube_watch"
  define V where "V = map unat vid"
  define T where "T = code_points t"
  define nt where "nt = (\<lambda>n. \<not> is_tab_or_newline n)"
  have Y: "Y = ascii ''youtube.com/watch''"
    by (simp add: Y_def youtube_watch_def js_def ascii_def)
  from vid(1) have V: "\<forall>n\<in>set V. id_code n"
    by (auto simp: V_def list_all_iff id_code_unat)
  from vid(2) have Vne: "V \<noteq> []" by (simp add: V_def)
  then have "last V \<in> set V" by simp
  with V have "id_code (last V)" by blast
  then have Vlast: "\<not> is_c0_or_space (last V)" by (rule id_code_facts(2))
  have small: "\<forall>c\<in>set (youtube_watch @ js ''?v='' @ vid). unat c < 0x80"
  proof
    fix c assume "c \<in> set (youtube_watch @ js ''?v='' @ vid)"
    then consider "c \<in> set (youtube_watch @ js ''?v='')" | "c \<in> set vid" by auto
    then show "unat c < 0x80"
    proof cases
      case 1
      then show ?thesis by (auto simp: youtube_watch_def js_def)
    next
      case 2
      with vid(1) have "id_code (unat c)" by (auto simp: list_all_iff id_code_unat)
      then show ?thesis by (rule id_code_facts(1))
    qed
  qed
  have "\<not> is_low_surrogate (hd ((youtube_watch @ js ''?v='' @ vid) @ t))"
    by (simp add: youtube_watch_def js_def is_low_surrogate_def)
  then have "code_points (p @ (youtube_watch @ js ''?v='' @ vid) @ t) =
      A @ code_points ((youtube_watch @ js ''?v='' @ vid) @ t)"
    unfolding A_def by (intro code_points_append_left) simp
  also have "code_points ((youtube_watch @ js ''?v='' @ vid) @ t) =
      map unat (youtube_watch @ js ''?v='' @ vid) @ T"
    unfolding T_def using small by (rule code_points_small_append)
  also have "map unat (youtube_watch @ js ''?v='' @ vid) = Y @ [0x3F, 0x76, 0x3D] @ V"
    by (simp add: Y_def V_def js_def)
  finally have cps: "code_points (p @ youtube_watch @ js ''?v='' @ vid @ t) =
      A @ (Y @ [0x3F, 0x76, 0x3D]) @ V @ T"
    by simp
  define A1 where "A1 = dropWhile is_c0_or_space A"
  define Y3 where "Y3 = Y @ [0x3F, 0x76, 0x3D]"
  have "\<not> is_c0_or_space (hd (Y3 @ V @ T))"
    by (simp add: Y3_def Y ascii_def is_c0_or_space_def)
  then have left: "dropWhile is_c0_or_space (A @ Y3 @ V @ T) = A1 @ Y3 @ V @ T"
    unfolding A1_def by (intro dropWhile_append_stop) simp
  have "trim_right ((A1 @ Y3) @ V @ T) = (A1 @ Y3) @ V @ trim_right T"
    unfolding trim_right_def using Vne Vlast by (rule strip_right)
  then have right: "trim_right (A1 @ Y3 @ V @ T) = A1 @ Y3 @ V @ trim_right T"
    by (simp only: append_assoc)
  from cps have "code_points (p @ youtube_watch @ js ''?v='' @ vid @ t) = A @ Y3 @ V @ T"
    by (simp only: Y3_def)
  then have "url_input (p @ youtube_watch @ js ''?v='' @ vid @ t) =
      filter nt (A1 @ Y3 @ V @ trim_right T)"
    by (simp only: url_input_def left right nt_def)
  then have stripped: "url_input (p @ youtube_watch @ js ''?v='' @ vid @ t) =
      filter nt (A1 @ Y @ [0x3F, 0x76, 0x3D] @ V @ trim_right T)"
    by (simp only: Y3_def append_assoc)
  have fV: "filter nt V = V"
    using V by (auto simp: nt_def filter_id_conv id_code_facts(3))
  have fY: "filter nt Y = Y"
    by (simp add: Y ascii_def nt_def is_tab_or_newline_def)
  have f3: "filter nt [0x3F, 0x76, 0x3D] = [0x3F, 0x76, 0x3D]"
    by (simp add: nt_def is_tab_or_newline_def)
  define T4 where "T4 = filter nt (trim_right T)"
  from stripped have "url_input (p @ youtube_watch @ js ''?v='' @ vid @ t) =
      filter nt A1 @ Y @ [0x3F, 0x76, 0x3D] @ V @ T4"
    by (simp only: filter_append fV fY f3 T4_def)
  then have input: "url_input (p @ youtube_watch @ js ''?v='' @ vid @ t) =
      (filter nt A1 @ Y) @ 0x3F # ([0x76, 0x3D] @ V) @ T4"
    by simp
  have "0x3F \<notin> set A" "0x23 \<notin> set A"
    unfolding A_def
    using code_points_without [of p "0x3F"] code_points_without [of p "0x23"] p
    by simp_all
  then have "\<forall>n\<in>set (filter nt A1). n \<noteq> 0x3F \<and> n \<noteq> 0x23"
    unfolding A1_def by (auto dest: set_dropWhileD)
  then have before: "\<forall>n\<in>set (filter nt A1 @ Y). n \<noteq> 0x3F \<and> n \<noteq> 0x23"
    by (auto simp: Y ascii_def)
  obtain T3 where T3: "takeWhile (\<lambda>n. n \<noteq> 0x23) T4 = T3"
    and T3': "T3 = [] \<or> hd T3 = 0x26"
    using tail_of_query [OF t] unfolding T_def nt_def T4_def by blast
  from V have "\<forall>n\<in>set V. n \<noteq> 0x23"
    using id_code_facts(5) by blast
  then have Vhash: "\<forall>n\<in>set ([0x76, 0x3D] @ V). n \<noteq> 0x23"
    by simp
  have "dropWhile (\<lambda>n. n \<noteq> 0x3F \<and> n \<noteq> 0x23)
          ((filter nt A1 @ Y) @ 0x3F # ([0x76, 0x3D] @ V) @ T4) =
        0x3F # ([0x76, 0x3D] @ V) @ T4"
    using dropWhile_all [OF before, of "0x3F # ([0x76, 0x3D] @ V) @ T4"] by simp
  moreover have "takeWhile (\<lambda>n. n \<noteq> 0x23) (([0x76, 0x3D] @ V) @ T4) = ([0x76, 0x3D] @ V) @ T3"
    using takeWhile_all [OF Vhash, of T4] T3 by simp
  ultimately have raw: "raw_query (url_input (p @ youtube_watch @ js ''?v='' @ vid @ t)) =
      Some (([0x76, 0x3D] @ V) @ T3)"
    unfolding input raw_query_def by simp
  define special where "special = is_special (url_input (p @ youtube_watch @ js ''?v='' @ vid @ t))"
  define Q where "Q = percent_encode_query special T3"
  have "n < 0x80 \<and> \<not> in_query_set special n" if "n \<in> set ([0x76, 0x3D] @ V)" for n
  proof (cases "n \<in> set V")
    case True
    with V have "id_code n" by blast
    then show ?thesis using id_code_facts(1) id_code_facts(10) by blast
  next
    case False
    with that have "n = 0x76 \<or> n = 0x3D" by simp
    then show ?thesis by (auto simp: in_query_set_def)
  qed
  then have "\<forall>n\<in>set ([0x76, 0x3D] @ V). n < 0x80 \<and> \<not> in_query_set special n"
    by blast
  then have "percent_encode_query special (([0x76, 0x3D] @ V) @ T3) = ([0x76, 0x3D] @ V) @ Q"
    unfolding Q_def by (rule percent_encode_query_plain)
  with raw have query: "url_query (p @ youtube_watch @ js ''?v='' @ vid @ t) =
      Some (([0x76, 0x3D] @ V) @ Q)"
    by (simp add: url_query_def Let_def special_def)
  have Q: "Q = [] \<or> hd Q = 0x26"
  proof (cases T3)
    case Nil
    then show ?thesis by (simp add: Q_def percent_encode_query_def)
  next
    case (Cons c cs)
    with T3' have "c = 0x26" by simp
    with Cons have "Q = 0x26 # percent_encode_query special cs"
      by (simp add: Q_def percent_encode_query_def utf8_encode_def percent_encode_byte_def
          in_query_set_def)
    then show ?thesis by simp
  qed
  from V have "\<forall>x\<in>set V. \<not> x = 0x26"
    using id_code_facts(6) by blast
  then have "\<forall>x\<in>set ([0x76, 0x3D] @ V). \<not> x = 0x26"
    by simp
  with Q obtain rest where "split_on (\<lambda>b. b = 0x26) (([0x76, 0x3D] @ V) @ Q) = ([0x76, 0x3D] @ V) # rest"
    using split_on_first [of "[0x76, 0x3D] @ V" "\<lambda>b. b = 0x26" Q] by blast
  then have parsed: "urlencoded_parse (([0x76, 0x3D] @ V) @ Q) =
      parse_pair ([0x76, 0x3D] @ V) # map parse_pair (filter (\<lambda>s. s \<noteq> []) rest)"
    by (simp add: urlencoded_parse_def)
  from V have "\<forall>n\<in>set V. n < 0x80 \<and> n \<noteq> 0x25 \<and> n \<noteq> 0x2B"
    using id_code_facts(1) id_code_facts(8) id_code_facts(9) by blast
  then have "decode_component V = map of_nat V" by (rule decode_component_plain)
  then have dv: "decode_component V = vid" by (simp add: V_def comp_def)
  have dn: "decode_component [0x76] = js ''v''"
    by (simp add: decode_component_plain js_def)
  have "parse_pair ([0x76, 0x3D] @ V) = (js ''v'', vid)"
    by (simp add: parse_pair_def dn dv)
  with parsed query show ?thesis by simp
qed

lemma URL_new_watch:
  assumes "URL_failure P (p @ youtube_watch @ js ''?v='' @ vid @ t) = None"
    and "list_all is_id_char vid" and "vid \<noteq> []"
    and "\<forall>c\<in>set p. c \<noteq> 0x3F \<and> c \<noteq> 0x23"
    and "t = [] \<or> hd t = 0x26 \<or> hd t = 0x23"
  shows "\<exists>u. URL_new P (p @ youtube_watch @ js ''?v='' @ vid @ t) = Inr u \<and>
             searchParams_get u (js ''v'') = Some vid"
proof -
  obtain rest where "map_option urlencoded_parse
      (url_query (p @ youtube_watch @ js ''?v='' @ vid @ t)) = Some ((js ''v'', vid) # rest)"
    using watch_query_param [OF assms(2-5)] by blast
  then obtain q where "url_query (p @ youtube_watch @ js ''?v='' @ vid @ t) = Some q"
    and "urlencoded_parse q = (js ''v'', vid) # rest"
    by auto
  with assms(1) show ?thesis
    by (simp add: URL_new_def searchParams_get_def)
qed

lemmas url_eval =
  url_query_def url_input_def trim_right_def scalar_def is_high_surrogate_def
  is_low_surrogate_def is_c0_or_space_def is_tab_or_newline_def raw_query_def is_special_def
  lower_def ascii_def percent_encode_query_def utf8_encode_def percent_encode_byte_def
  in_query_set_def hex_digit_def urlencoded_parse_def parse_pair_def decode_component_def
  utf16_def is_hex_def hex_value_def js_def Let_def

lemma watch_branch_result:
  assumes "\<not> str_includes s youtu_be" and "str_includes s youtube_watch"
    and "URL_failure P s = None" and "url_query s = Some q"
    and "map_of (urlencoded_parse q) (js ''v'') = r"
  shows "extractYouTubeVideoId P (Str s) =
     Inr (case r of None \<Rightarrow> [] | Some v \<Rightarrow> if v \<noteq> [] \<and> test11 v then v else [])"
proof -
  from assms(2) have "s \<noteq> []" by (auto simp: youtube_watch_def js_def)
  moreover from assms have "extract_candidate P s = Inr (case r of None \<Rightarrow> [] | Some v \<Rightarrow> v)"
    by (simp add: extract_candidate_def watch_param_def URL_new_def searchParams_get_def
        try_catch_def)
  ultimately show ?thesis
    by (simp add: extract_Str extract_general_def try_catch_def split: option.splits)
qed

section \<open>The four recognized shapes\<close>

lemma path_shape:
  assumes sep: "\<forall>c\<in>set sep. \<not> is_delim c" "\<not> is_id_char (last sep)" "sep \<noteq> []"
    and vid: "length vid = 11" "list_all is_id_char vid"
    and t: "t = [] \<or> is_delim (hd t)"
    and first: "\<not> str_includes (p @ butlast sep) sep"
    and branch: "extract_candidate P (p @ sep @ vid @ t) = Inr (after_marker (p @ sep @ vid @ t) sep)"
  shows "extractYouTubeVideoId P (Str (p @ sep @ vid @ t)) = Inr vid"
proof -
  from sep vid(2) t first have "after_marker (p @ sep @ vid @ t) sep = vid"
    by (rule after_marker_id)
  with branch have "extract_candidate P (p @ sep @ vid @ t) = Inr vid" by simp
  moreover from vid have "test11 vid" by (rule test11_id)
  ultimately have "extract_general P (p @ sep @ vid @ t) = Inr vid"
    by (rule extract_general_of_candidate)
  with sep(3) show ?thesis by (simp add: extract_Str)
qed


text \<open>
  Claim C1, as the code has it. Let \<open>vid\<close> be eleven characters of the class and let the
  trailing text \<open>t\<close> be empty or begin with \<open>?\<close>, \<open>#\<close> or \<open>&\<close>. The extractor returns
  exactly \<open>vid\<close> on \<open>p @ marker @ vid @ t\<close> for the markers \<^verbatim>\<open>youtu.be/\<close>,
  \<^verbatim>\<open>youtube.com/v/\<close> and \<^verbatim>\<open>youtube.com/embed/\<close>, when no marker that the code tests
  earlier occurs anywhere in the string and the marker does not occur before the place
  where \<open>vid\<close> follows it. On \<open>p @ youtube.com/watch?v= @ vid @ t\<close> it returns \<open>vid\<close> when
  \<^verbatim>\<open>youtu.be/\<close> does not occur in the string, the URL parser of the runtime accepts
  the string, the prefix \<open>p\<close> holds neither \<open>?\<close> nor \<open>#\<close>, and \<open>t\<close> is empty or begins
  with \<open>&\<close> or \<open>#\<close>: the query then begins with \<open>v=vid\<close>, and the first search
  parameter is \<open>v\<close> with the value \<open>vid\<close>.
\<close>

theorem recognized_shapes:
  assumes vid: "length vid = 11" "list_all is_id_char vid"
    and t: "t = [] \<or> is_delim (hd t)"
  shows
    "(\<not> str_includes (p @ butlast youtu_be) youtu_be \<longrightarrow>
        extractYouTubeVideoId P (Str (p @ youtu_be @ vid @ t)) = Inr vid) \<and>
     (\<not> str_includes (p @ youtube_v @ vid @ t) youtu_be \<and>
      \<not> str_includes (p @ youtube_v @ vid @ t) youtube_watch \<and>
      \<not> str_includes (p @ butlast youtube_v) youtube_v \<longrightarrow>
        extractYouTubeVideoId P (Str (p @ youtube_v @ vid @ t)) = Inr vid) \<and>
     (\<not> str_includes (p @ youtube_embed @ vid @ t) youtu_be \<and>
      \<not> str_includes (p @ youtube_embed @ vid @ t) youtube_watch \<and>
      \<not> str_includes (p @ youtube_embed @ vid @ t) youtube_v \<and>
      \<not> str_includes (p @ butlast youtube_embed) youtube_embed \<longrightarrow>
        extractYouTubeVideoId P (Str (p @ youtube_embed @ vid @ t)) = Inr vid) \<and>
     (\<not> str_includes (p @ youtube_watch @ js ''?v='' @ vid @ t) youtu_be \<and>
      URL_failure P (p @ youtube_watch @ js ''?v='' @ vid @ t) = None \<and>
      list_all (\<lambda>c. c \<noteq> 0x3F \<and> c \<noteq> 0x23) p \<and>
      (t = [] \<or> hd t = 0x26 \<or> hd t = 0x23) \<longrightarrow>
        extractYouTubeVideoId P (Str (p @ youtube_watch @ js ''?v='' @ vid @ t)) = Inr vid)"
proof (intro conjI impI)
  assume "\<not> str_includes (p @ butlast youtu_be) youtu_be"
  moreover have "extract_candidate P (p @ youtu_be @ vid @ t) =
      Inr (after_marker (p @ youtu_be @ vid @ t) youtu_be)"
    by (simp add: extract_candidate_def str_includes_shape)
  ultimately show "extractYouTubeVideoId P (Str (p @ youtu_be @ vid @ t)) = Inr vid"
    using marker_facts(1-3) vid t by (intro path_shape)
next
  assume a: "\<not> str_includes (p @ youtube_v @ vid @ t) youtu_be \<and>
      \<not> str_includes (p @ youtube_v @ vid @ t) youtube_watch \<and>
      \<not> str_includes (p @ butlast youtube_v) youtube_v"
  then have "extract_candidate P (p @ youtube_v @ vid @ t) =
      Inr (after_marker (p @ youtube_v @ vid @ t) youtube_v)"
    by (simp add: extract_candidate_def str_includes_shape)
  with a show "extractYouTubeVideoId P (Str (p @ youtube_v @ vid @ t)) = Inr vid"
    using marker_facts(4-6) vid t by (intro path_shape) simp_all
next
  assume a: "\<not> str_includes (p @ youtube_embed @ vid @ t) youtu_be \<and>
      \<not> str_includes (p @ youtube_embed @ vid @ t) youtube_watch \<and>
      \<not> str_includes (p @ youtube_embed @ vid @ t) youtube_v \<and>
      \<not> str_includes (p @ butlast youtube_embed) youtube_embed"
  then have "extract_candidate P (p @ youtube_embed @ vid @ t) =
      Inr (after_marker (p @ youtube_embed @ vid @ t) youtube_embed)"
    by (simp add: extract_candidate_def str_includes_shape)
  with a show "extractYouTubeVideoId P (Str (p @ youtube_embed @ vid @ t)) = Inr vid"
    using marker_facts(7-9) vid t by (intro path_shape) simp_all
next
  let ?url = "p @ youtube_watch @ js ''?v='' @ vid @ t"
  assume a: "\<not> str_includes ?url youtu_be \<and> URL_failure P ?url = None \<and>
      list_all (\<lambda>c. c \<noteq> 0x3F \<and> c \<noteq> 0x23) p \<and>
      (t = [] \<or> hd t = 0x26 \<or> hd t = 0x23)"
  from vid(1) have "vid \<noteq> []" by auto
  with a vid(2) obtain u where "URL_new P ?url = Inr u"
    and "searchParams_get u (js ''v'') = Some vid"
    using URL_new_watch [of P p vid t] by (auto simp: list_all_iff)
  then have "watch_param P ?url = Inr vid" by (rule watch_param_found)
  moreover have "str_includes ?url youtube_watch" by (rule str_includes_shape)
  ultimately have "extract_candidate P ?url = Inr vid"
    using a by (simp add: extract_candidate_def)
  moreover from vid have "test11 vid" by (rule test11_id)
  ultimately have "extract_general P ?url = Inr vid" by (rule extract_general_of_candidate)
  moreover have "?url \<noteq> []" by (simp add: youtube_watch_def js_def)
  ultimately show "extractYouTubeVideoId P (Str ?url) = Inr vid" by (simp add: extract_Str)
qed

theorem recognized_shapes_witness:
  "length (js ''dQw4w9WgXcQ'') = 11 \<and>
   list_all is_id_char (js ''dQw4w9WgXcQ'') \<and>
   is_delim (hd (js ''&t=10s'')) \<and>
   \<not> str_includes (js ''https://www.'' @ butlast youtu_be) youtu_be \<and>
   extractYouTubeVideoId sample_platform
     (Str (js ''https://www.'' @ youtu_be @ js ''dQw4w9WgXcQ'' @ js ''&t=10s'')) =
     Inr (js ''dQw4w9WgXcQ'') \<and>
   \<not> str_includes (js ''https://www.'' @ youtube_v @ js ''dQw4w9WgXcQ'' @ js ''&t=10s'') youtu_be \<and>
   \<not> str_includes (js ''https://www.'' @ youtube_v @ js ''dQw4w9WgXcQ'' @ js ''&t=10s'') youtube_watch \<and>
   \<not> str_includes (js ''https://www.'' @ butlast youtube_v) youtube_v \<and>
   extractYouTubeVideoId sample_platform
     (Str (js ''https://www.'' @ youtube_v @ js ''dQw4w9WgXcQ'' @ js ''&t=10s'')) =
     Inr (js ''dQw4w9WgXcQ'') \<and>
   \<not> str_includes (js ''https://www.'' @ youtube_embed @ js ''dQw4w9WgXcQ'' @ js ''&t=10s'') youtu_be \<and>
   \<not> str_includes (js ''https://www.'' @ youtube_embed @ js ''dQw4w9WgXcQ'' @ js ''&t=10s'') youtube_watch \<and>
   \<not> str_includes (js ''https://www.'' @ youtube_embed @ js ''dQw4w9WgXcQ'' @ js ''&t=10s'') youtube_v \<and>
   \<not> str_includes (js ''https://www.'' @ butlast youtube_embed) youtube_embed \<and>
   extractYouTubeVideoId sample_platform
     (Str (js ''https://www.'' @ youtube_embed @ js ''dQw4w9WgXcQ'' @ js ''&t=10s'')) =
     Inr (js ''dQw4w9WgXcQ'') \<and>
   js ''https://www.'' @ youtube_watch @ js ''?v='' @ js ''dQw4w9WgXcQ'' @ js ''&t=10s'' =
     js ''https://www.youtube.com/watch?v=dQw4w9WgXcQ&t=10s'' \<and>
   \<not> str_includes (js ''https://www.'' @ youtube_watch @ js ''?v='' @ js ''dQw4w9WgXcQ'' @ js ''&t=10s'') youtu_be \<and>
   URL_failure sample_platform
     (js ''https://www.'' @ youtube_watch @ js ''?v='' @ js ''dQw4w9WgXcQ'' @ js ''&t=10s'') = None \<and>
   list_all (\<lambda>c. c \<noteq> 0x3F \<and> c \<noteq> 0x23) (js ''https://www.'') \<and>
   hd (js ''&t=10s'') = 0x26 \<and>
   extractYouTubeVideoId sample_platform
     (Str (js ''https://www.'' @ youtube_watch @ js ''?v='' @ js ''dQw4w9WgXcQ'' @ js ''&t=10s'')) =
     Inr (js ''dQw4w9WgXcQ'')"
proof -
  have vid: "length (js ''dQw4w9WgXcQ'') = 11" "list_all is_id_char (js ''dQw4w9WgXcQ'')"
    by (simp_all add: js_def is_id_char_def)
  have t: "is_delim (hd (js ''&t=10s''))"
    by (simp add: js_def is_delim_def)
  then have t': "js ''&t=10s'' = [] \<or> is_delim (hd (js ''&t=10s''))" ..
  have a1: "\<not> str_includes (js ''https://www.'' @ butlast youtu_be) youtu_be"
    by (simp add: js_def youtu_be_def)
  have a2: "\<not> str_includes (js ''https://www.'' @ youtube_v @ js ''dQw4w9WgXcQ'' @ js ''&t=10s'') youtu_be"
    "\<not> str_includes (js ''https://www.'' @ youtube_v @ js ''dQw4w9WgXcQ'' @ js ''&t=10s'') youtube_watch"
    "\<not> str_includes (js ''https://www.'' @ butlast youtube_v) youtube_v"
    by (simp_all add: js_def youtu_be_def youtube_v_def youtube_watch_def)
  have a3: "\<not> str_includes (js ''https://www.'' @ youtube_embed @ js ''dQw4w9WgXcQ'' @ js ''&t=10s'') youtu_be"
    "\<not> str_includes (js ''https://www.'' @ youtube_embed @ js ''dQw4w9WgXcQ'' @ js ''&t=10s'') youtube_watch"
    "\<not> str_includes (js ''https://www.'' @ youtube_embed @ js ''dQw4w9WgXcQ'' @ js ''&t=10s'') youtube_v"
    "\<not> str_includes (js ''https://www.'' @ butlast youtube_embed) youtube_embed"
    by (simp_all add: js_def youtu_be_def youtube_v_def youtube_watch_def youtube_embed_def)
  have lit: "js ''https://www.'' @ youtube_watch @ js ''?v='' @ js ''dQw4w9WgXcQ'' @ js ''&t=10s'' =
     js ''https://www.youtube.com/watch?v=dQw4w9WgXcQ&t=10s''"
    by (simp add: js_def youtube_watch_def)
  have a4: "\<not> str_includes (js ''https://www.'' @ youtube_watch @ js ''?v='' @ js ''dQw4w9WgXcQ'' @ js ''&t=10s'') youtu_be"
    by (simp add: js_def youtu_be_def youtube_watch_def)
  have a5: "URL_failure sample_platform
     (js ''https://www.'' @ youtube_watch @ js ''?v='' @ js ''dQw4w9WgXcQ'' @ js ''&t=10s'') = None"
    by code_simp
  have a6: "list_all (\<lambda>c. c \<noteq> 0x3F \<and> c \<noteq> 0x23) (js ''https://www.'')"
    by (simp add: js_def)
  have a7: "hd (js ''&t=10s'') = 0x26"
    by (simp add: js_def)
  from vid t a1 a2 a3 lit a4 a5 a6 a7
    recognized_shapes [OF vid t', of "js ''https://www.''" sample_platform]
  show ?thesis by blast
qed

text \<open>
  Claim C1 as stated fails, for trailing query content and for some prefixes. For the
  path shapes: an embed URL whose query holds \<^verbatim>\<open>youtu.be/\<close> is taken by the first
  branch, and a second \<^verbatim>\<open>youtu.be/\<close> before the one followed by the identifier makes
  \<open>parts[1]\<close> the text between the two. For the watch shape: a string without a scheme
  does not parse; a query that holds \<^verbatim>\<open>youtu.be/\<close> sends the string to the first
  branch; with a \<open>?\<close> in the prefix the query begins there and has no parameter \<open>v\<close>;
  and trailing content that begins with \<open>?\<close> is part of the value of \<open>v\<close>.
\<close>

theorem recognized_shapes_counterexample:
  "length (js ''dQw4w9WgXcQ'') = 11 \<and>
   list_all is_id_char (js ''dQw4w9WgXcQ'') \<and>
   is_delim (hd (js ''?feature=youtu.be/'')) \<and>
   extractYouTubeVideoId sample_platform
     (Str (js ''https://www.'' @ youtube_embed @ js ''dQw4w9WgXcQ'' @ js ''?feature=youtu.be/'')) =
     Inr [] \<and>
   extractYouTubeVideoId sample_platform
     (Str (js ''https://youtu.be/c/'' @ youtu_be @ js ''dQw4w9WgXcQ'')) = Inr [] \<and>
   URL_new sample_platform (youtube_watch @ js ''?v='' @ js ''dQw4w9WgXcQ'') =
     Inl (JsError (js ''Invalid URL'')) \<and>
   extractYouTubeVideoId sample_platform
     (Str (youtube_watch @ js ''?v='' @ js ''dQw4w9WgXcQ'')) = Inr [] \<and>
   extractYouTubeVideoId sample_platform
     (Str (js ''https://www.'' @ youtube_watch @ js ''?v='' @ js ''dQw4w9WgXcQ'' @
           js ''&feature=youtu.be/'')) = Inr [] \<and>
   URL_failure sample_platform
     (js ''https://example.com/?u='' @ youtube_watch @ js ''?v='' @ js ''dQw4w9WgXcQ'') = None \<and>
   extractYouTubeVideoId sample_platform
     (Str (js ''https://example.com/?u='' @ youtube_watch @ js ''?v='' @ js ''dQw4w9WgXcQ'')) =
     Inr [] \<and>
   URL_failure sample_platform
     (js ''https://www.'' @ youtube_watch @ js ''?v='' @ js ''dQw4w9WgXcQ'' @ js ''?t=10'') = None \<and>
   extractYouTubeVideoId sample_platform
     (Str (js ''https://www.'' @ youtube_watch @ js ''?v='' @ js ''dQw4w9WgXcQ'' @ js ''?t=10'')) =
     Inr []"
proof -
  let ?u5 = "js ''https://example.com/?u='' @ youtube_watch @ js ''?v='' @ js ''dQw4w9WgXcQ''"
  let ?u6 = "js ''https://www.'' @ youtube_watch @ js ''?v='' @ js ''dQw4w9WgXcQ'' @ js ''?t=10''"
  have paths: "length (js ''dQw4w9WgXcQ'') = 11 \<and>
     list_all is_id_char (js ''dQw4w9WgXcQ'') \<and>
     is_delim (hd (js ''?feature=youtu.be/'')) \<and>
     extractYouTubeVideoId sample_platform
       (Str (js ''https://www.'' @ youtube_embed @ js ''dQw4w9WgXcQ'' @ js ''?feature=youtu.be/'')) =
       Inr [] \<and>
     extractYouTubeVideoId sample_platform
       (Str (js ''https://youtu.be/c/'' @ youtu_be @ js ''dQw4w9WgXcQ'')) = Inr [] \<and>
     URL_new sample_platform (youtube_watch @ js ''?v='' @ js ''dQw4w9WgXcQ'') =
       Inl (JsError (js ''Invalid URL'')) \<and>
     extractYouTubeVideoId sample_platform
       (Str (youtube_watch @ js ''?v='' @ js ''dQw4w9WgXcQ'')) = Inr [] \<and>
     extractYouTubeVideoId sample_platform
       (Str (js ''https://www.'' @ youtube_watch @ js ''?v='' @ js ''dQw4w9WgXcQ'' @
             js ''&feature=youtu.be/'')) = Inr []"
    by code_simp
  have l5: "?u5 = js ''https://example.com/?u=youtube.com/watch?v=dQw4w9WgXcQ''"
    and l6: "?u6 = js ''https://www.youtube.com/watch?v=dQw4w9WgXcQ?t=10''"
    by (simp_all add: js_def youtube_watch_def)
  have f5: "URL_failure sample_platform ?u5 = None"
    and f6: "URL_failure sample_platform ?u6 = None"
    by code_simp+
  have i5: "\<not> str_includes ?u5 youtu_be" "str_includes ?u5 youtube_watch"
    and i6: "\<not> str_includes ?u6 youtu_be" "str_includes ?u6 youtube_watch"
    by (simp_all add: js_def youtube_watch_def youtu_be_def)
  have q5: "url_query ?u5 = Some (ascii ''u=youtube.com/watch?v=dQw4w9WgXcQ'')"
    unfolding l5 by (simp add: url_eval)
  have q6: "url_query ?u6 = Some (ascii ''v=dQw4w9WgXcQ?t=10'')"
    unfolding l6 by (simp add: url_eval)
  have p5: "map_of (urlencoded_parse (ascii ''u=youtube.com/watch?v=dQw4w9WgXcQ'')) (js ''v'') = None"
    by (simp add: url_eval)
  have p6: "map_of (urlencoded_parse (ascii ''v=dQw4w9WgXcQ?t=10'')) (js ''v'') =
      Some (js ''dQw4w9WgXcQ?t=10'')"
    by (simp add: url_eval)
  have "\<not> test11 (js ''dQw4w9WgXcQ?t=10'')" by (simp add: test11_def js_def)
  with watch_branch_result [OF i6 f6 q6 p6]
  have r6: "extractYouTubeVideoId sample_platform (Str ?u6) = Inr []" by simp
  from watch_branch_result [OF i5 f5 q5 p5]
  have r5: "extractYouTubeVideoId sample_platform (Str ?u5) = Inr []" by simp
  from paths f5 r5 f6 r6 show ?thesis by blast
qed

section \<open>Facts about the handler\<close>

lemma summarize_cases:
  "summarize answer =
     Inr (case answer of
            OaRejected e \<Rightarrow>
              \<lparr>status = 500,
               body = [(js ''error'', Str (js ''OpenAI failed: '' @ message e))]\<rparr>
          | OaResolved c \<Rightarrow>
              (case completion_content c of
                 None \<Rightarrow>
                   \<lparr>status = 500, body = [(js ''error'', Str (js ''Failed to generate summary''))]\<rparr>
               | Some summary \<Rightarrow>
                   if summary = []
                   then \<lparr>status = 500,
                         body = [(js ''error'', Str (js ''Failed to generate summary''))]\<rparr>
                   else \<lparr>status = 200, body = [(js ''summary'', Str summary)]\<rparr>))"
  by (simp add: summarize_def try_catch_def JSON_stringify_def
      split: oa_outcome.splits option.splits)

lemma lacks_text_content:
  "lacks_text c \<longleftrightarrow> completion_content c = None \<or> completion_content c = Some []"
  by (induction c rule: lacks_text.induct) (simp_all add: completion_content_def)

lemma dropWhile_Nil_iff: "dropWhile Q xs = [] \<longleftrightarrow> (\<forall>x\<in>set xs. Q x)"
  by (induction xs) auto

lemma trim_empty_iff: "trim s = [] \<longleftrightarrow> (\<forall>c\<in>set s. is_space c)"
proof
  assume "trim s = []"
  then have "dropWhile is_space (rev (dropWhile is_space s)) = []"
    by (simp add: trim_def)
  then have rest: "\<forall>c\<in>set (dropWhile is_space s). is_space c"
    by (simp only: dropWhile_Nil_iff set_rev)
  have "dropWhile is_space s = []"
  proof (cases "dropWhile is_space s")
    case Nil
    then show ?thesis .
  next
    case (Cons c cs)
    then have "\<not> is_space c" using hd_dropWhile [of is_space s] by simp
    moreover from Cons rest have "is_space c" by simp
    ultimately show ?thesis by contradiction
  qed
  then show "\<forall>c\<in>set s. is_space c" by (simp only: dropWhile_Nil_iff)
next
  assume "\<forall>c\<in>set s. is_space c"
  then have "dropWhile is_space s = []" by (simp only: dropWhile_Nil_iff)
  then show "trim s = []" by (simp only: trim_def rev.simps dropWhile.simps)
qed

lemma fetch_transcript_cases:
  "fetch_transcript P videoResponse = [] \<or>
   (\<exists>rest. fetch_transcript P videoResponse = 0x5B # rest)"
  by (auto simp: fetch_transcript_def video_description_def try_catch_def js_def
      split: yt_outcome.splits option.splits list.splits)

lemma trim_fetch_transcript:
  "trim (fetch_transcript P videoResponse) = [] \<longleftrightarrow> fetch_transcript P videoResponse = []"
proof -
  have "\<not> is_space 0x5B" by (simp add: is_space_def)
  then show ?thesis
    using fetch_transcript_cases [of P videoResponse] by (auto simp: trim_empty_iff)
qed

lemma no_usable_description_empty:
  "no_usable_description videoResponse \<Longrightarrow> fetch_transcript P videoResponse = []"
  by (induction videoResponse rule: no_usable_description.induct)
    (auto simp: fetch_transcript_def video_description_def try_catch_def)

lemma no_usable_description_iff:
  "fetch_transcript P videoResponse = [] \<longleftrightarrow> no_usable_description videoResponse"
  by (induction videoResponse rule: no_usable_description.induct)
    (auto simp: fetch_transcript_def video_description_def try_catch_def js_def
       split: option.splits if_splits)

lemma POST_no_identifier:
  assumes "extractYouTubeVideoId P videoUrl = Inr []"
  shows "POST P S (Body videoUrl given_locale) =
     ([], \<lparr>status = 400,
           body = JSON_stringify
             [(js ''error'',
               Str (js ''Could not extract a valid YouTube video ID from the provided URL.'')),
              (js ''receivedUrl'', videoUrl)]\<rparr>)"
  using assms by (simp add: POST_def POST_try_def)

lemma POST_no_content:
  assumes "extractYouTubeVideoId P videoUrl = Inr videoId" and "videoId \<noteq> []"
    and "fetch_transcript P (youtube_videos S videoId) = []"
  shows "POST P S (Body videoUrl given_locale) =
     ([YouTubeVideos videoId],
      case noTranscript P (case given_locale of None \<Rightarrow> js ''ko'' | Some l \<Rightarrow> l) of
        Inl error \<Rightarrow>
          \<lparr>status = 500,
           body = [(js ''error'',
                    Str (if message error \<noteq> [] then message error
                         else js ''An unexpected error occurred''))]\<rparr>
      | Inr m \<Rightarrow> \<lparr>status = 400, body = JSON_stringify [(js ''error'', m)]\<rparr>)"
  using assms
  by (simp add: POST_def POST_try_def trim_def JSON_stringify_def split: sum.splits)

lemma POST_with_content:
  assumes "extractYouTubeVideoId P videoUrl = Inr videoId" and "videoId \<noteq> []"
    and "fetch_transcript P (youtube_videos S videoId) \<noteq> []"
  shows "POST P S (Body videoUrl given_locale) =
     (let request = chat_request_for P (case given_locale of None \<Rightarrow> js ''ko'' | Some l \<Rightarrow> l)
                      (trim_for_openai (fetch_transcript P (youtube_videos S videoId)))
      in ([YouTubeVideos videoId, ChatCompletion request],
          case summarize (chat_completions_create S request) of
            Inr r \<Rightarrow> r
          | Inl error \<Rightarrow>
              \<lparr>status = 500,
               body = [(js ''error'',
                        Str (if message error \<noteq> [] then message error
                             else js ''An unexpected error occurred''))]\<rparr>))"
  using assms
  by (simp add: POST_def POST_try_def trim_fetch_transcript Let_def JSON_stringify_def
      split: sum.splits)

lemma noTranscript_known:
  "noTranscript P (js ''ko'') = Inr (Str noTranscript_ko)"
  "noTranscript P (js ''en'') = Inr (Str noTranscript_en)"
  by (simp_all add: noTranscript_def get_property_def errorMessages_def js_def)

lemma noTranscript_unknown:
  assumes "locale \<noteq> js ''ko''" and "locale \<noteq> js ''en''"
  shows "noTranscript P locale =
     (if locale \<in> set Object_prototype_keys then Inr Undefined
      else Inl (JsError (msg_read_of_undefined P (js ''noTranscript''))))"
  using assms by (simp add: noTranscript_def get_property_def errorMessages_def)

lemma sample_fetch:
  "fetch_transcript P
     (YtResolved (Some [Some \<lparr>title = Some ttl, description = Some (c # d)\<rparr>])) =
   js ''[Video title: '' @ ttl @ js '']'' @ [0x0A, 0x0A] @ c # d"
  by (simp add: fetch_transcript_def video_description_def try_catch_def to_string_def)

section \<open>No identifier: the response 400 echoes the input\<close>

text \<open>
  Claim C8, as the code has it. For every request whose \<open>videoUrl\<close> is a string from
  which no identifier is extracted, the handler makes no outbound call and responds
  with status 400 and a body that holds an error message and the property
  \<open>receivedUrl\<close> with the string as it was received; for the empty string the body's
  \<open>receivedUrl\<close> is the empty string. For a request without a \<open>videoUrl\<close> the response
  is the same but for \<open>receivedUrl\<close>, which the body does not have.
\<close>

theorem no_identifier_response:
  "(extractYouTubeVideoId P (Str s) = Inr [] \<longrightarrow>
      POST P S (Body (Str s) given_locale) =
        ([], \<lparr>status = 400,
              body =
                [(js ''error'',
                  Str (js ''Could not extract a valid YouTube video ID from the provided URL.'')),
                 (js ''receivedUrl'', Str s)]\<rparr>)) \<and>
   POST P S (Body (Str []) given_locale) =
     ([], \<lparr>status = 400,
           body =
             [(js ''error'',
               Str (js ''Could not extract a valid YouTube video ID from the provided URL.'')),
              (js ''receivedUrl'', Str [])]\<rparr>) \<and>
   POST P S (Body Undefined given_locale) =
     ([], \<lparr>status = 400,
           body =
             [(js ''error'',
               Str (js ''Could not extract a valid YouTube video ID from the provided URL.''))]\<rparr>)"
proof (intro conjI impI)
  assume "extractYouTubeVideoId P (Str s) = Inr []"
  then show "POST P S (Body (Str s) given_locale) =
        ([], \<lparr>status = 400,
              body =
                [(js ''error'',
                  Str (js ''Could not extract a valid YouTube video ID from the provided URL.'')),
                 (js ''receivedUrl'', Str s)]\<rparr>)"
    by (simp add: POST_no_identifier JSON_stringify_def)
next
  have "extractYouTubeVideoId P (Str []) = Inr []" by (simp add: extract_Str)
  then show "POST P S (Body (Str []) given_locale) =
     ([], \<lparr>status = 400,
           body =
             [(js ''error'',
               Str (js ''Could not extract a valid YouTube video ID from the provided URL.'')),
              (js ''receivedUrl'', Str [])]\<rparr>)"
    by (simp add: POST_no_identifier JSON_stringify_def)
next
  have "extractYouTubeVideoId P Undefined = Inr []" by (simp add: extract_not_string)
  then show "POST P S (Body Undefined given_locale) =
     ([], \<lparr>status = 400,
           body =
             [(js ''error'',
               Str (js ''Could not extract a valid YouTube video ID from the provided URL.''))]\<rparr>)"
    by (simp add: POST_no_identifier JSON_stringify_def)
qed

theorem no_identifier_response_witness:
  "extractYouTubeVideoId sample_platform (Str (js ''not a video'')) = Inr [] \<and>
   POST sample_platform (constant_services (YtResolved None) (OaResolved None))
     (Body (Str (js ''not a video'')) None) =
     ([], \<lparr>status = 400,
           body =
             [(js ''error'',
               Str (js ''Could not extract a valid YouTube video ID from the provided URL.'')),
              (js ''receivedUrl'', Str (js ''not a video''))]\<rparr>) \<and>
   POST sample_platform (constant_services (YtResolved None) (OaResolved None))
     (Body (Str []) None) =
     ([], \<lparr>status = 400,
           body =
             [(js ''error'',
               Str (js ''Could not extract a valid YouTube video ID from the provided URL.'')),
              (js ''receivedUrl'', Str [])]\<rparr>)"
proof -
  have h: "extractYouTubeVideoId sample_platform (Str (js ''not a video'')) = Inr []"
    by code_simp
  from h no_identifier_response
    [of sample_platform "js ''not a video''"
      "constant_services (YtResolved None) (OaResolved None)" None]
  show ?thesis by blast
qed

text \<open>
  Claim C8 as stated fails for a request without a \<open>videoUrl\<close>, from which no
  identifier is extracted either: the value of \<open>receivedUrl\<close> is \<^verbatim>\<open>undefined\<close> and the
  body, once written as JSON, has no such property.
\<close>

theorem no_identifier_without_url_counterexample:
  "extractYouTubeVideoId sample_platform Undefined = Inr [] \<and>
   map_of
     (body (snd (POST sample_platform (constant_services (YtResolved None) (OaResolved None))
        (Body Undefined None))))
     (js ''receivedUrl'') = None \<and>
   POST sample_platform (constant_services (YtResolved None) (OaResolved None))
     (Body Undefined None) =
     ([], \<lparr>status = 400,
           body =
             [(js ''error'',
               Str (js ''Could not extract a valid YouTube video ID from the provided URL.''))]\<rparr>)"
  by code_simp

section \<open>A failed metadata call is not a failed request\<close>

text \<open>
  Claim C5. For every request with a valid identifier whose metadata call fails, or
  answers without a usable description (no items, no first item, no snippet, no
  description or an empty one), the error is not propagated: the transcript text stays
  empty, the metadata call is the only outbound call, and when the locale is \<open>ko\<close>
  (given, or by default) or \<open>en\<close> the response has status 400 and that locale's
  "no transcript" message.
\<close>

theorem metadata_failure_not_propagated:
  assumes "extractYouTubeVideoId P videoUrl = Inr videoId" and "videoId \<noteq> []"
    and "no_usable_description (youtube_videos S videoId)"
    and "given_locale = None \<or> given_locale = Some (js ''ko'') \<or> given_locale = Some (js ''en'')"
  shows "fetch_transcript P (youtube_videos S videoId) = [] \<and>
     POST P S (Body videoUrl given_locale) =
       ([YouTubeVideos videoId],
        \<lparr>status = 400,
         body = [(js ''error'',
                  Str (if given_locale = Some (js ''en'') then noTranscript_en
                       else noTranscript_ko))]\<rparr>)"
proof -
  from assms(3) have empty: "fetch_transcript P (youtube_videos S videoId) = []"
    by (rule no_usable_description_empty)
  have ne: "js ''ko'' \<noteq> js ''en''" by (simp add: js_def)
  from assms(4) have "noTranscript P (case given_locale of None \<Rightarrow> js ''ko'' | Some l \<Rightarrow> l) =
      Inr (Str (if given_locale = Some (js ''en'') then noTranscript_en else noTranscript_ko))"
    using ne by (auto simp: noTranscript_known)
  with POST_no_content [OF assms(1,2) empty, of given_locale] empty
  show ?thesis by (simp add: JSON_stringify_def)
qed

theorem metadata_failure_not_propagated_witness:
  "extractYouTubeVideoId sample_platform (Str test_url) = Inr (js ''QiZ62yswdPw'') \<and>
   js ''QiZ62yswdPw'' \<noteq> [] \<and>
   no_usable_description
     (youtube_videos
        (constant_services (YtRejected (JsError (js ''Request failed with status code 403'')))
           (OaResolved None))
        (js ''QiZ62yswdPw'')) \<and>
   fetch_transcript sample_platform
     (youtube_videos
        (constant_services (YtRejected (JsError (js ''Request failed with status code 403'')))
           (OaResolved None))
        (js ''QiZ62yswdPw'')) = [] \<and>
   POST sample_platform
     (constant_services (YtRejected (JsError (js ''Request failed with status code 403'')))
        (OaResolved None))
     (Body (Str test_url) (Some (js ''en''))) =
     ([YouTubeVideos (js ''QiZ62yswdPw'')],
      \<lparr>status = 400, body = [(js ''error'', Str noTranscript_en)]\<rparr>)"
proof -
  let ?S = "constant_services (YtRejected (JsError (js ''Request failed with status code 403'')))
        (OaResolved None)"
  have h1: "extractYouTubeVideoId sample_platform (Str test_url) = Inr (js ''QiZ62yswdPw'')"
    by (simp add: extractYouTubeVideoId_def test_url_not_Nil)
  have h2: "js ''QiZ62yswdPw'' \<noteq> []" by (simp add: js_def)
  have h3: "no_usable_description (youtube_videos ?S (js ''QiZ62yswdPw''))"
    by (simp add: constant_services_def)
  have h4: "Some (js ''en'') = None \<or> Some (js ''en'') = Some (js ''ko'') \<or>
      Some (js ''en'') = Some (js ''en'')" by simp
  from h1 h2 h3 metadata_failure_not_propagated [OF h1 h2 h3 h4]
  show ?thesis by simp
qed

section \<open>An unknown locale with no content\<close>

text \<open>
  Claim C6, as the code has it. Let the identifier be valid, the transcript text empty
  and the locale tag neither \<open>ko\<close> nor \<open>en\<close>. When the tag is not the name of a member
  of \<^verbatim>\<open>Object.prototype\<close>, \<^verbatim>\<open>errorMessages[locale]\<close> is \<^verbatim>\<open>undefined\<close>, reading
  \<^verbatim>\<open>noTranscript\<close> of it throws, the outer \<^verbatim>\<open>catch\<close> takes the error and the response
  has status 500 with the error's message. When the tag is such a name
  (\<^verbatim>\<open>constructor\<close>, \<^verbatim>\<open>toString\<close>, ...) the lookup gives the inherited member, its
  \<^verbatim>\<open>noTranscript\<close> is \<^verbatim>\<open>undefined\<close>, nothing is thrown, and the response has status 400
  with a body without an error message.
\<close>

theorem unknown_locale_no_content:
  assumes "extractYouTubeVideoId P videoUrl = Inr videoId" and "videoId \<noteq> []"
    and "fetch_transcript P (youtube_videos S videoId) = []"
    and "locale \<noteq> js ''ko''" and "locale \<noteq> js ''en''"
  shows "(locale \<notin> set Object_prototype_keys \<longrightarrow>
            POST P S (Body videoUrl (Some locale)) =
              ([YouTubeVideos videoId],
               \<lparr>status = 500,
                body = [(js ''error'',
                         Str (if msg_read_of_undefined P (js ''noTranscript'') \<noteq> []
                              then msg_read_of_undefined P (js ''noTranscript'')
                              else js ''An unexpected error occurred''))]\<rparr>)) \<and>
         (locale \<in> set Object_prototype_keys \<longrightarrow>
            POST P S (Body videoUrl (Some locale)) =
              ([YouTubeVideos videoId], \<lparr>status = 400, body = []\<rparr>))"
  using POST_no_content [OF assms(1-3), of "Some locale"] assms(4,5)
  by (simp add: noTranscript_unknown JSON_stringify_def)

theorem unknown_locale_no_content_witness:
  "extractYouTubeVideoId sample_platform (Str test_url) = Inr (js ''QiZ62yswdPw'') \<and>
   js ''QiZ62yswdPw'' \<noteq> [] \<and>
   fetch_transcript sample_platform
     (youtube_videos (constant_services (YtResolved (Some [])) (OaResolved None))
        (js ''QiZ62yswdPw'')) = [] \<and>
   js ''fr'' \<noteq> js ''ko'' \<and> js ''fr'' \<noteq> js ''en'' \<and>
   js ''fr'' \<notin> set Object_prototype_keys \<and>
   POST sample_platform (constant_services (YtResolved (Some [])) (OaResolved None))
     (Body (Str test_url) (Some (js ''fr''))) =
     ([YouTubeVideos (js ''QiZ62yswdPw'')],
      \<lparr>status = 500,
       body = [(js ''error'',
                Str (js ''Cannot read properties of undefined (reading '' @ [0x27] @
                     js ''noTranscript'' @ [0x27] @ js '')''))]\<rparr>) \<and>
   js ''toString'' \<noteq> js ''ko'' \<and> js ''toString'' \<noteq> js ''en'' \<and>
   js ''toString'' \<in> set Object_prototype_keys \<and>
   POST sample_platform (constant_services (YtResolved (Some [])) (OaResolved None))
     (Body (Str test_url) (Some (js ''toString''))) =
     ([YouTubeVideos (js ''QiZ62yswdPw'')], \<lparr>status = 400, body = []\<rparr>)"
proof -
  let ?S = "constant_services (YtResolved (Some [])) (OaResolved None)"
  have h1: "extractYouTubeVideoId sample_platform (Str test_url) = Inr (js ''QiZ62yswdPw'')"
    by (simp add: extractYouTubeVideoId_def test_url_not_Nil)
  have h2: "js ''QiZ62yswdPw'' \<noteq> []" by (simp add: js_def)
  have h3: "fetch_transcript sample_platform (youtube_videos ?S (js ''QiZ62yswdPw'')) = []"
    by (simp add: constant_services_def fetch_transcript_def video_description_def try_catch_def)
  have fr: "js ''fr'' \<noteq> js ''ko''" "js ''fr'' \<noteq> js ''en''"
    "js ''fr'' \<notin> set Object_prototype_keys"
    by (simp_all add: js_def Object_prototype_keys_def)
  have ts: "js ''toString'' \<noteq> js ''ko''" "js ''toString'' \<noteq> js ''en''"
    "js ''toString'' \<in> set Object_prototype_keys"
    by (simp_all add: js_def Object_prototype_keys_def)
  have m: "msg_read_of_undefined sample_platform (js ''noTranscript'') =
      js ''Cannot read properties of undefined (reading '' @ [0x27] @
        js ''noTranscript'' @ [0x27] @ js '')''"
    by (simp add: sample_platform_def)
  have mne: "js ''Cannot read properties of undefined (reading '' @ [0x27] @
        js ''noTranscript'' @ [0x27] @ js '')'' \<noteq> []"
    by (simp add: js_def)
  from unknown_locale_no_content [OF h1 h2 h3 fr(1,2)]
    unknown_locale_no_content [OF h1 h2 h3 ts(1,2)] h1 h2 h3 fr ts m mne
  show ?thesis by simp
qed

text \<open>
  Claim C6 as stated fails: the locale tag \<^verbatim>\<open>constructor\<close> is neither \<open>ko\<close> nor \<open>en\<close>, the
  content is empty, and the response has status 400, not 500.
\<close>

theorem unknown_locale_counterexample:
  "js ''constructor'' \<noteq> js ''ko'' \<and> js ''constructor'' \<noteq> js ''en'' \<and>
   extractYouTubeVideoId sample_platform (Str test_url) = Inr (js ''QiZ62yswdPw'') \<and>
   fetch_transcript sample_platform (YtResolved (Some [])) = [] \<and>
   POST sample_platform (constant_services (YtResolved (Some [])) (OaResolved None))
     (Body (Str test_url) (Some (js ''constructor''))) =
     ([YouTubeVideos (js ''QiZ62yswdPw'')], \<lparr>status = 400, body = []\<rparr>)"
  by code_simp

section \<open>Failures of the language model call\<close>

text \<open>
  Claim C7. For every request that reaches the call of the language model (a valid
  identifier and a transcript text that is not empty): when the call fails, the response
  has status 500 and the error message \<^verbatim>\<open>OpenAI failed: \<close> followed by the message of
  the failure; when the call succeeds and the completion lacks the text (no completion,
  no choices, no first choice, no message, no content, or an empty content), the
  response has status 500 and the message \<^verbatim>\<open>Failed to generate summary\<close>.
\<close>

theorem language_model_failures:
  assumes "extractYouTubeVideoId P videoUrl = Inr videoId" and "videoId \<noteq> []"
    and "fetch_transcript P (youtube_videos S videoId) \<noteq> []"
    and "request =
      chat_request_for P (case given_locale of None \<Rightarrow> js ''ko'' | Some l \<Rightarrow> l)
        (trim_for_openai (fetch_transcript P (youtube_videos S videoId)))"
  shows "(chat_completions_create S request = OaRejected e \<longrightarrow>
            POST P S (Body videoUrl given_locale) =
              ([YouTubeVideos videoId, ChatCompletion request],
               \<lparr>status = 500,
                body = [(js ''error'', Str (js ''OpenAI failed: '' @ message e))]\<rparr>)) \<and>
         (chat_completions_create S request = OaResolved c \<and> lacks_text c \<longrightarrow>
            POST P S (Body videoUrl given_locale) =
              ([YouTubeVideos videoId, ChatCompletion request],
               \<lparr>status = 500,
                body = [(js ''error'', Str (js ''Failed to generate summary''))]\<rparr>))"
  using POST_with_content [OF assms(1-3), of given_locale] assms(4)
  by (auto simp: Let_def summarize_cases lacks_text_content)

theorem language_model_failures_witness:
  "extractYouTubeVideoId sample_platform (Str test_url) = Inr (js ''QiZ62yswdPw'') \<and>
   js ''QiZ62yswdPw'' \<noteq> [] \<and>
   fetch_transcript sample_platform
     (youtube_videos
        (constant_services
           (YtResolved (Some [Some \<lparr>title = Some (js ''T''), description = Some (js ''d'')\<rparr>]))
           (OaRejected (JsError (js ''429 Rate limit reached''))))
        (js ''QiZ62yswdPw'')) \<noteq> [] \<and>
   snd (POST sample_platform
     (constant_services
        (YtResolved (Some [Some \<lparr>title = Some (js ''T''), description = Some (js ''d'')\<rparr>]))
        (OaRejected (JsError (js ''429 Rate limit reached''))))
     (Body (Str test_url) None)) =
     \<lparr>status = 500,
      body = [(js ''error'', Str (js ''OpenAI failed: '' @ js ''429 Rate limit reached''))]\<rparr> \<and>
   lacks_text (Some (Completion (Some []))) \<and>
   snd (POST sample_platform
     (constant_services
        (YtResolved (Some [Some \<lparr>title = Some (js ''T''), description = Some (js ''d'')\<rparr>]))
        (OaResolved (Some (Completion (Some [])))))
     (Body (Str test_url) None)) =
     \<lparr>status = 500, body = [(js ''error'', Str (js ''Failed to generate summary''))]\<rparr>"
proof -
  let ?yt = "YtResolved (Some [Some \<lparr>title = Some (js ''T''), description = Some (js ''d'')\<rparr>])"
  let ?S1 = "constant_services ?yt (OaRejected (JsError (js ''429 Rate limit reached'')))"
  let ?S2 = "constant_services ?yt (OaResolved (Some (Completion (Some []))))"
  have h1: "extractYouTubeVideoId sample_platform (Str test_url) = Inr (js ''QiZ62yswdPw'')"
    by (simp add: extractYouTubeVideoId_def test_url_not_Nil)
  have h2: "js ''QiZ62yswdPw'' \<noteq> []" by (simp add: js_def)
  have h3: "fetch_transcript sample_platform (youtube_videos ?S1 (js ''QiZ62yswdPw'')) \<noteq> []"
    "fetch_transcript sample_platform (youtube_videos ?S2 (js ''QiZ62yswdPw'')) \<noteq> []"
    by (simp_all add: constant_services_def js_def sample_fetch)
  have c1: "chat_completions_create ?S1 r = OaRejected (JsError (js ''429 Rate limit reached''))"
    and c2: "chat_completions_create ?S2 r = OaResolved (Some (Completion (Some [])))" for r
    by (simp_all add: constant_services_def)
  have l: "lacks_text (Some (Completion (Some [])))" by simp
  from language_model_failures [OF h1 h2 h3(1) refl, of None "JsError (js ''429 Rate limit reached'')"]
    language_model_failures [OF h1 h2 h3(2) refl, of None _ "Some (Completion (Some []))"]
    h1 h2 h3 c1 c2 l
  show ?thesis by simp
qed

section \<open>The content is cut at 60000 code units\<close>

text \<open>
  Claim C9. For every request that reaches the call of the language model, the text
  sent in the user message is the locale's prefix followed by the content: by exactly
  its first 60000 code units when it is longer than 60000, and by the whole of it
  otherwise.
\<close>

theorem content_cut_at_60000:
  assumes "extractYouTubeVideoId P videoUrl = Inr videoId" and "videoId \<noteq> []"
    and "source = fetch_transcript P (youtube_videos S videoId)" and "source \<noteq> []"
    and "locale = (case given_locale of None \<Rightarrow> js ''ko'' | Some l \<Rightarrow> l)"
  shows "(60000 < length source \<longrightarrow>
            length (take 60000 source) = 60000 \<and>
            fst (POST P S (Body videoUrl given_locale)) =
              [YouTubeVideos videoId,
               ChatCompletion
                 \<lparr>messages =
                    [\<lparr>role = js ''system'', content = system_content locale\<rparr>,
                     \<lparr>role = js ''user'',
                      content = Text (user_prefix P locale @ take 60000 source)\<rparr>],
                  model = js ''gpt-4o'', max_tokens = 2000, temperature = 7 / 10\<rparr>]) \<and>
         (length source \<le> 60000 \<longrightarrow>
            fst (POST P S (Body videoUrl given_locale)) =
              [YouTubeVideos videoId,
               ChatCompletion
                 \<lparr>messages =
                    [\<lparr>role = js ''system'', content = system_content locale\<rparr>,
                     \<lparr>role = js ''user'', content = Text (user_prefix P locale @ source)\<rparr>],
                  model = js ''gpt-4o'', max_tokens = 2000, temperature = 7 / 10\<rparr>])"
proof -
  from assms(3,4) have "fetch_transcript P (youtube_videos S videoId) \<noteq> []" by simp
  from POST_with_content [OF assms(1,2) this, of given_locale] assms(3,5)
  show ?thesis
    by (simp add: Let_def chat_request_for_def trim_for_openai_def)
qed

theorem content_cut_at_60000_witness:
  "extractYouTubeVideoId sample_platform (Str test_url) = Inr (js ''QiZ62yswdPw'') \<and>
   js ''QiZ62yswdPw'' \<noteq> [] \<and>
   fetch_transcript sample_platform
     (youtube_videos
        (constant_services
           (YtResolved (Some [Some \<lparr>title = Some (js ''T''),
                                    description = Some (replicate 70000 0x61)\<rparr>]))
           (OaResolved None))
        (js ''QiZ62yswdPw'')) =
     js ''[Video title: T]'' @ [0x0A, 0x0A] @ replicate 70000 0x61 \<and>
   length (js ''[Video title: T]'' @ [0x0A, 0x0A] @ replicate 70000 (0x61 :: jschar)) = 70018 \<and>
   take 60000 (js ''[Video title: T]'' @ [0x0A, 0x0A] @ replicate 70000 (0x61 :: jschar)) =
     js ''[Video title: T]'' @ [0x0A, 0x0A] @ replicate 59982 0x61 \<and>
   fst (POST sample_platform
     (constant_services
        (YtResolved (Some [Some \<lparr>title = Some (js ''T''),
                                 description = Some (replicate 70000 0x61)\<rparr>]))
        (OaResolved None))
     (Body (Str test_url) (Some (js ''en'')))) =
     [YouTubeVideos (js ''QiZ62yswdPw''),
      ChatCompletion
        \<lparr>messages =
           [\<lparr>role = js ''system'', content = Text systemPrompts_en\<rparr>,
            \<lparr>role = js ''user'',
             content = Text (userPrompts_en @ js ''[Video title: T]'' @ [0x0A, 0x0A] @
                             replicate 59982 0x61)\<rparr>],
         model = js ''gpt-4o'', max_tokens = 2000, temperature = 7 / 10\<rparr>]"
proof -
  let ?S = "constant_services
        (YtResolved (Some [Some \<lparr>title = Some (js ''T''),
                                 description = Some (replicate 70000 0x61)\<rparr>]))
        (OaResolved None)"
  let ?src = "js ''[Video title: T]'' @ [0x0A, 0x0A] @ replicate 70000 (0x61 :: jschar)"
  have h1: "extractYouTubeVideoId sample_platform (Str test_url) = Inr (js ''QiZ62yswdPw'')"
    by (simp add: extractYouTubeVideoId_def test_url_not_Nil)
  have h2: "js ''QiZ62yswdPw'' \<noteq> []" by (simp add: js_def)
  have r: "replicate 70000 (0x61 :: jschar) = 0x61 # replicate 69999 0x61"
    by (simp add: replicate_Suc [symmetric] del: replicate_Suc replicate.simps)
  have h3: "?src = fetch_transcript sample_platform (youtube_videos ?S (js ''QiZ62yswdPw''))"
    by (simp add: constant_services_def r sample_fetch js_def)
  have h4: "?src \<noteq> []" by (simp add: js_def)
  have len: "length ?src = 70018" by (simp add: js_def)
  have tk: "take 60000 ?src = js ''[Video title: T]'' @ [0x0A, 0x0A] @ replicate 59982 0x61"
    by (simp add: js_def)
  have sys: "system_content (js ''en'') = Text systemPrompts_en"
    by (simp add: system_content_def get_property_def systemPrompts_def js_def)
  have usr: "user_prefix sample_platform (js ''en'') = userPrompts_en"
    by (simp add: user_prefix_def get_property_def userPrompts_def js_def)
  from content_cut_at_60000 [OF h1 h2 h3 h4 refl, of "Some (js ''en'')"] len
  have "fst (POST sample_platform ?S (Body (Str test_url) (Some (js ''en'')))) =
     [YouTubeVideos (js ''QiZ62yswdPw''),
      ChatCompletion
        \<lparr>messages =
           [\<lparr>role = js ''system'', content = system_content (js ''en'')\<rparr>,
            \<lparr>role = js ''user'',
             content = Text (user_prefix sample_platform (js ''en'') @ take 60000 ?src)\<rparr>],
         model = js ''gpt-4o'', max_tokens = 2000, temperature = 7 / 10\<rparr>]"
    by simp
  then show ?thesis
    unfolding sys usr tk using h1 h2 h3 len tk by simp
qed

end
